theory Spec2Isabelle
  imports Complex_Main "HOL-Library.Word" "HOL-Library.Sublist"
begin

section \<open>The file scanner of \<open>src/python/antivirus.py\<close>\<close>

text \<open>
  The development embeds \<open>is_infected\<close> and everything it uses. Bytes are 8-bit words, a
  \<open>bytes\<close> object is a list of them, Python's \<open>str\<close> is \<open>string\<close>. The standard library and
  the third-party packages the function calls are not part of the repository:
  \<^item> \<open>hashlib\<close>: a hash object is a value of an abstract state type with the three operations
    the code uses (\<open>hashlib.md5()\<close>, \<open>update\<close>, \<open>hexdigest\<close>), passed in as a parameter;
  \<^item> \<open>scipy.stats.entropy\<close> with its default \<open>base=None\<close>: the natural logarithm, over the
    reals (rounding of binary floating point is not modelled);
  \<^item> the file system: a path is either no regular file or a file with the size that
    \<open>os.path.getsize\<close> reports, the bytes that reading it gives, and the I/O failures that
    \<open>open\<close> and \<open>read\<close> raise. The size and the bytes are kept apart: the kernel's
    pseudo files report a size that is not the number of bytes a read gives, and a file may be
    truncated between the two calls. Closing the file is taken not to raise;
  \<^item> logging writes to stderr only and is left out.
\<close>

subsection \<open>Bytes\<close>

type_synonym byte = "8 word"
type_synonym bytes = "byte list"

definition ascii :: "string \<Rightarrow> bytes" where
  \<comment> \<open>a bytes literal \<open>b'...'\<close> of ASCII characters\<close>
  "ascii s = map (\<lambda>c. of_nat (of_char c)) s"

definition lower_byte :: "byte \<Rightarrow> byte" where
  "lower_byte b = (if 0x41 \<le> b \<and> b \<le> 0x5A then b + 0x20 else b)"

definition lower :: "bytes \<Rightarrow> bytes" where
  \<comment> \<open>\<open>bytes.lower()\<close>: the ASCII capitals are mapped, every other byte is kept\<close>
  "lower bs = map lower_byte bs"

definition startswith :: "bytes \<Rightarrow> bytes \<Rightarrow> bool" where
  \<comment> \<open>\<open>chunk.startswith(sig)\<close>\<close>
  "startswith chunk sig = prefix sig chunk"

definition bytes_in :: "bytes \<Rightarrow> bytes \<Rightarrow> bool" where
  \<comment> \<open>\<open>needle in chunk\<close> on bytes: a contiguous occurrence\<close>
  "bytes_in needle chunk = sublist needle chunk"

definition basename :: "string \<Rightarrow> string" where
  \<comment> \<open>\<open>os.path.basename\<close>: what follows the last slash\<close>
  "basename p = rev (takeWhile (\<lambda>c. c \<noteq> CHR ''/'') (rev p))"

subsection \<open>The module's tables\<close>

definition KNOWN_BAD_MD5 :: "string \<rightharpoonup> string" where
  "KNOWN_BAD_MD5 = map_of
    [(''f0f322dcfe9953991c03746984b923ed'', ''DDoS Malware''),
     (''1fa3fc9ac5eb03d95bfa401a26111447'', ''Remcos RAT''),
     (''f3109e3234a83452de39ad40a285a5fd'', ''Remcos RAT Variant''),
     (''6a8401448a5bd2b540850f811b20a66d'', ''Dridex''),
     (''7d1f2798bd70c6cf04f5ad4de1aa68d2'', ''Formbook''),
     (''f2752c991000ad9d807fcbe188f03695'', ''Formbook Variant''),
     (''44d88612fea8a8f36de82e1278abb02f'', ''EICAR Test (Production Placeholder)''),
     (''6690cbf0c23303701f41bc3972ae9829'', ''Unknown Malware Sample'')]"

definition KNOWN_BAD_SHA256 :: "string \<rightharpoonup> string" where
  "KNOWN_BAD_SHA256 = map_of
    [(''9001567e2025f83c936b8746fd3b01e44572f70d8ddec39b75b9459f7e5089c8'', ''Unknown Malware''),
     (''178ba564b39bd07577e974a9b677dfd86ffa1f1d0299dfd958eb883c5ef6c3e1'', ''Dridex''),
     (''8571a354b5cdd9ec3735b84fa207e72c7aea1ab82ea2e4ffea1373335b3e88f4'', ''IISShellModule''),
     (''ef537f25c895bfa782526529a9b63d97aa631564d5d789c2b765448c8635fb6c'', ''Agent Tesla''),
     (''795db7bdad1befdd3ad942be79715f6b0c5083d859901b81657b590c9628790f'', ''Ryuk Ransomware''),
     (''3c5afa0fe75dcb4b1d86bbf19c75d64ae1ec00a6ed2bd6b34e88af8c23df9bfa'', ''Unknown Malware Sample''),
     (''fb55414848281f804858ce188c3dc659d129e283bd62d58d34f6e6f568feab37'', ''Suspicious File'')]"

definition ENTROPY_THRESHOLD :: real where
  "ENTROPY_THRESHOLD = 79 / 10"

definition PDF_SIG :: bytes where
  "PDF_SIG = ascii ''%PDF-''"

definition EXECUTABLE_HEADERS :: "(bytes \<times> string) list" where
  \<comment> \<open>a dict, iterated in insertion order\<close>
  "EXECUTABLE_HEADERS =
    [([0x4D, 0x5A], ''Windows PE (MZ)''),
     (0x7F # ascii ''ELF'', ''Linux ELF''),
     ([0xFE, 0xED, 0xFA, 0xCE], ''Mach-O (macOS)''),
     ([0xFE, 0xED, 0xFA, 0xCF], ''Mach-O (macOS 64-bit)''),
     (PDF_SIG, ''PDF (check for embedded JS)'')]"

definition suspicious_strings :: "bytes list" where
  "suspicious_strings =
    [ascii ''bitcoin'', ascii ''ransom'', ascii ''encrypt'', ascii ''decrypt'',
     ascii ''cmd.exe /c'', ascii ''powershell.exe'']"

definition NOP_SLED :: bytes where
  \<comment> \<open>\<open>b'\x90' * 20\<close>\<close>
  "NOP_SLED = replicate 20 0x90"

definition CHUNK_SIZE :: nat where
  "CHUNK_SIZE = 8192"

subsection \<open>The libraries and the file system\<close>

record 'h hasher =
  h_new :: 'h
  h_update :: "'h \<Rightarrow> bytes \<Rightarrow> 'h"
  h_hexdigest :: "'h \<Rightarrow> string"

datatype float = Finite real | NaN

record ('m, 's) libs =
  md5 :: "'m hasher"
  sha256 :: "'s hasher"
  str_float :: "float \<Rightarrow> string"

definition one_shot :: "'h hasher \<Rightarrow> bytes \<Rightarrow> string" where
  \<comment> \<open>\<open>hashlib.md5(data).hexdigest()\<close>: a new object, one update\<close>
  "one_shot H bs = h_hexdigest H (h_update H (h_new H) bs)"

record fnode =
  st_size :: nat
  data :: bytes
  open_error :: "string option"
  read_error :: "(nat \<times> string) option"

type_synonym filesystem = "string \<Rightarrow> fnode option"

datatype read_event = Chunk bytes | ReadFails string

function chunks :: "nat \<Rightarrow> bytes \<Rightarrow> bytes list" where
  "chunks n bs = (if n = 0 \<or> bs = [] then [] else take n bs # chunks n (drop n bs))"
  by pat_completeness auto
termination
  by (relation "measure (\<lambda>(n, bs). length bs)") auto

definition read_events :: "fnode \<Rightarrow> read_event list" where
  \<comment> \<open>what the successive calls \<open>f.read(8192)\<close> give, up to the empty read that ends
      \<open>iter(..., b'')\<close>; call number \<open>k\<close> (from 0) raises when \<open>read_error\<close> says so\<close>
  "read_events f =
     (let cs = chunks CHUNK_SIZE (data f) in
      case read_error f of
        None \<Rightarrow> map Chunk cs
      | Some (k, msg) \<Rightarrow>
          if k \<le> length cs then map Chunk (take k cs) @ [ReadFails msg] else map Chunk cs)"

subsection \<open>The result and the loop's variables\<close>

record scan_result =
  infected :: bool
  reason :: "string option"
  filename :: string
  size :: nat
  hashes_md5 :: "string option"
  hashes_sha256 :: "string option"
  entropy :: float

record ('m, 's) scan_state =
  md5_hash :: 'm
  sha256_hash :: 's
  byte_counts :: "nat list"
  header_checked :: bool
  pdf_checked :: bool
  suspicious_content :: bool
  shellcode_detected :: bool

datatype ('m, 's) step = Return scan_result | Next "('m, 's) scan_state"

datatype ('m, 's) outcome =
  Returned scan_result | Raised string | Exhausted "('m, 's) scan_state"

datatype completion = Returns scan_result | Raises string scan_result

subsection \<open>Entropy\<close>

fun count_bytes :: "bytes \<Rightarrow> nat list \<Rightarrow> nat list" where
  \<comment> \<open>\<open>for byte in chunk: byte_counts[byte] += 1\<close>\<close>
  "count_bytes [] counts = counts"
| "count_bytes (b # bs) counts = count_bytes bs (counts[unat b := counts ! unat b + 1])"

definition entr :: "real \<Rightarrow> real" where
  \<comment> \<open>\<open>scipy.special.entr\<close> on the non-negative reals\<close>
  "entr x = (if 0 < x then - x * ln x else 0)"

definition scipy_entropy :: "real list \<Rightarrow> real" where
  \<comment> \<open>\<open>scipy.stats.entropy(pk)\<close>: normalise, then sum \<open>entr\<close>; no base is given\<close>
  "scipy_entropy pk = (let s = sum_list pk in sum_list (map (\<lambda>p. entr (p / s)) pk))"

definition probs :: "nat list \<Rightarrow> real list option" where
  \<comment> \<open>\<open>byte_counts / byte_counts.sum()\<close>; numpy gives an array of NaN for 0/0 (None)\<close>
  "probs counts =
     (let total = sum_list counts in
      if total = 0 then None else Some (map (\<lambda>c. real c / real total) counts))"

definition file_entropy_of :: "nat list \<Rightarrow> float" where
  "file_entropy_of counts =
     (case probs counts of None \<Rightarrow> NaN | Some pk \<Rightarrow> Finite (scipy_entropy pk))"

definition float_gt :: "float \<Rightarrow> real \<Rightarrow> bool" where
  \<comment> \<open>every comparison with NaN is false\<close>
  "float_gt x t = (case x of NaN \<Rightarrow> False | Finite r \<Rightarrow> t < r)"

subsection \<open>The scan\<close>

fun check_headers :: "(bytes \<times> string) list \<Rightarrow> bytes \<Rightarrow> bool \<Rightarrow> string + bool" where
  \<comment> \<open>the loop over \<open>EXECUTABLE_HEADERS.items()\<close>: \<open>Inl desc\<close> is the return inside it,
      \<open>Inr\<close> carries \<open>pdf_checked\<close> out of it\<close>
  "check_headers [] chunk pdf = Inr pdf"
| "check_headers ((sig, desc) # rest) chunk pdf =
     (if startswith chunk sig then
        (if sig = PDF_SIG then check_headers rest chunk True else Inl desc)
      else check_headers rest chunk pdf)"

definition process_chunk ::
  "('m, 's) libs \<Rightarrow> scan_result \<Rightarrow> bytes \<Rightarrow> ('m, 's) scan_state \<Rightarrow> ('m, 's) step" where
  "process_chunk L result chunk st =
     (let st1 = st\<lparr>md5_hash := h_update (md5 L) (md5_hash st) chunk,
                   sha256_hash := h_update (sha256 L) (sha256_hash st) chunk,
                   byte_counts := count_bytes chunk (byte_counts st)\<rparr>
      in case (if \<not> header_checked st1
               then check_headers EXECUTABLE_HEADERS chunk (pdf_checked st1)
               else Inr (pdf_checked st1)) of
           Inl desc \<Rightarrow>
             Return (result\<lparr>infected := True,
                            reason := Some (''Suspicious executable header: '' @ desc)\<rparr>)
         | Inr pdf \<Rightarrow>
             (let st2 = st1\<lparr>header_checked := True, pdf_checked := pdf\<rparr> in
              if pdf_checked st2 \<and> bytes_in (ascii ''/JavaScript'') chunk then
                Return (result\<lparr>infected := True,
                               reason := Some ''Embedded JavaScript in PDF (potential exploit)''\<rparr>)
              else
                (let st3 = (if list_ex (\<lambda>s. bytes_in s (lower chunk)) suspicious_strings
                            then st2\<lparr>suspicious_content := True\<rparr> else st2);
                     st4 = (if bytes_in NOP_SLED chunk
                            then st3\<lparr>shellcode_detected := True\<rparr> else st3)
                 in Next st4)))"

fun scan_loop ::
  "('m, 's) libs \<Rightarrow> scan_result \<Rightarrow> read_event list \<Rightarrow> ('m, 's) scan_state \<Rightarrow> ('m, 's) outcome"
where
  "scan_loop L result [] st = Exhausted st"
| "scan_loop L result (ReadFails msg # evs) st = Raised msg"
| "scan_loop L result (Chunk chunk # evs) st =
     (case process_chunk L result chunk st of
        Return r \<Rightarrow> Returned r
      | Next st' \<Rightarrow> scan_loop L result evs st')"

definition initial_state :: "('m, 's) libs \<Rightarrow> ('m, 's) scan_state" where
  "initial_state L =
     \<lparr>md5_hash = h_new (md5 L), sha256_hash = h_new (sha256 L),
      byte_counts = replicate 256 0, header_checked = False, pdf_checked = False,
      suspicious_content = False, shellcode_detected = False\<rparr>"

definition stream_file :: "('m, 's) libs \<Rightarrow> scan_result \<Rightarrow> fnode \<Rightarrow> ('m, 's) outcome" where
  \<comment> \<open>\<open>with open(file_path, 'rb') as f: for chunk in iter(...): ...\<close>\<close>
  "stream_file L result f =
     (case open_error f of
        Some msg \<Rightarrow> Raised msg
      | None \<Rightarrow> scan_loop L result (read_events f) (initial_state L))"

definition post_stream :: "('m, 's) libs \<Rightarrow> scan_result \<Rightarrow> ('m, 's) scan_state \<Rightarrow> scan_result" where
  "post_stream L result st =
     (let md5_hex = h_hexdigest (md5 L) (md5_hash st);
          sha256_hex = h_hexdigest (sha256 L) (sha256_hash st);
          result1 = result\<lparr>hashes_md5 := Some md5_hex, hashes_sha256 := Some sha256_hex\<rparr>
      in case KNOWN_BAD_MD5 md5_hex of
           Some label \<Rightarrow>
             result1\<lparr>infected := True, reason := Some (''Known malware (MD5): '' @ label)\<rparr>
         | None \<Rightarrow>
        (case KNOWN_BAD_SHA256 sha256_hex of
           Some label \<Rightarrow>
             result1\<lparr>infected := True, reason := Some (''Known malware (SHA256): '' @ label)\<rparr>
         | None \<Rightarrow>
        (let file_entropy = file_entropy_of (byte_counts st);
             result2 = result1\<lparr>entropy := file_entropy\<rparr>
         in if float_gt file_entropy ENTROPY_THRESHOLD then
              result2\<lparr>infected := True,
                      reason := Some (''High file entropy: '' @ str_float L file_entropy
                                      @ '' (suspected packed/encrypted malware)'')\<rparr>
            else if suspicious_content st then
              result2\<lparr>infected := True,
                      reason := Some ''Suspicious content strings (potential ransomware or command injection)''\<rparr>
            else if shellcode_detected st then
              result2\<lparr>infected := True,
                      reason := Some ''Potential shellcode pattern (NOP sled detected)''\<rparr>
            else result2\<lparr>reason := Some ''Scan completed: No threats detected''\<rparr>)))"

definition is_infected_try :: "('m, 's) libs \<Rightarrow> filesystem \<Rightarrow> string \<Rightarrow> scan_result \<Rightarrow> completion" where
  \<comment> \<open>the body of the \<open>try\<close>; \<open>Raises msg r\<close> is an exception with \<open>str(e) = msg\<close>, raised
      while the dict \<open>result\<close> holds \<open>r\<close>\<close>
  "is_infected_try L fs file_path result =
     (case fs file_path of
        None \<Rightarrow> Returns (result\<lparr>reason := Some ''File does not exist''\<rparr>)
      | Some f \<Rightarrow>
          (let file_size = st_size f in
           if file_size = 0 then Returns (result\<lparr>reason := Some ''File is empty''\<rparr>)
           else
             (let result1 = result\<lparr>size := file_size\<rparr> in
              case stream_file L result1 f of
                Returned r \<Rightarrow> Returns r
              | Raised msg \<Rightarrow> Raises msg result1
              | Exhausted st \<Rightarrow> Returns (post_stream L result1 st))))"

definition is_infected :: "('m, 's) libs \<Rightarrow> filesystem \<Rightarrow> string \<Rightarrow> scan_result" where
  "is_infected L fs file_path =
     (let result = \<lparr>infected = False, reason = None, filename = basename file_path, size = 0,
                    hashes_md5 = None, hashes_sha256 = None, entropy = Finite 0\<rparr>
      in case is_infected_try L fs file_path result of
           Returns r \<Rightarrow> r
         | Raises msg r \<Rightarrow> r\<lparr>reason := Some (''Scan error: '' @ msg)\<rparr>)"

subsection \<open>Instances used to run the scan\<close>

text \<open>
  A small hash object, to run the scan on concrete files: a 16-bit polynomial checksum,
  updated byte by byte, rendered by a function given from outside.
\<close>

definition checksum_hasher :: "(nat \<Rightarrow> string) \<Rightarrow> nat hasher" where
  "checksum_hasher render =
     \<lparr>h_new = 0,
      h_update = (\<lambda>s bs. foldl (\<lambda>h b. (31 * h + unat b) mod 65521) s bs),
      h_hexdigest = render\<rparr>"

definition hex16 :: "nat \<Rightarrow> string" where
  "hex16 n = map (\<lambda>d. ''0123456789abcdef'' ! d)
               [n div 4096 mod 16, n div 256 mod 16, n div 16 mod 16, n mod 16]"

definition demo_libs :: "(nat \<Rightarrow> string) \<Rightarrow> (nat \<Rightarrow> string) \<Rightarrow> (nat, nat) libs" where
  "demo_libs render_md5 render_sha256 =
     \<lparr>md5 = checksum_hasher render_md5, sha256 = checksum_hasher render_sha256,
      str_float = (\<lambda>x. ''nan'')\<rparr>"

definition readable :: "bytes \<Rightarrow> fnode" where
  \<comment> \<open>an ordinary file on disk: its size is the number of its bytes\<close>
  "readable bs = \<lparr>st_size = length bs, data = bs, open_error = None, read_error = None\<rparr>"

definition one_file :: "string \<Rightarrow> fnode \<Rightarrow> filesystem" where
  "one_file name f = (\<lambda>p. if p = name then Some f else None)"

subsection \<open>Detection categories\<close>

text \<open>
  The result carries no category field: a category is read off the reason string. The six
  categories and the reason each one stands for follow the specification's list.
\<close>

datatype category =
  Signature | EmbeddedScript | DigestBlacklist | HighEntropy | SuspiciousContent | ShellcodePattern

fun names_category :: "string \<Rightarrow> category \<Rightarrow> bool" where
  "names_category r Signature = prefix ''Suspicious executable header: '' r"
| "names_category r EmbeddedScript = (r = ''Embedded JavaScript in PDF (potential exploit)'')"
| "names_category r DigestBlacklist =
     (prefix ''Known malware (MD5): '' r \<or> prefix ''Known malware (SHA256): '' r)"
| "names_category r HighEntropy = prefix ''High file entropy: '' r"
| "names_category r SuspiciousContent =
     (r = ''Suspicious content strings (potential ransomware or command injection)'')"
| "names_category r ShellcodePattern = (r = ''Potential shellcode pattern (NOP sled detected)'')"

definition one_category :: "string \<Rightarrow> bool" where
  "one_category rs = (\<exists>c. names_category rs c \<and> (\<forall>c'. names_category rs c' \<longrightarrow> c' = c))"

subsection \<open>Auxiliary notions\<close>

definition streaming_result :: "string \<Rightarrow> fnode \<Rightarrow> scan_result" where
  "streaming_result file_path f =
     \<lparr>infected = False, reason = None, filename = basename file_path,
      size = st_size f, hashes_md5 = None, hashes_sha256 = None, entropy = Finite 0\<rparr>"

definition has_suspicious_string :: "bytes \<Rightarrow> bool" where
  "has_suspicious_string chunk = list_ex (\<lambda>s. bytes_in s (lower chunk)) suspicious_strings"

text \<open>
  What the documentation of \<open>hashlib\<close> promises of a hash object: repeated calls of
  \<open>update\<close> are equivalent to a single call with the concatenation of the arguments.
\<close>

definition hashlib_contract :: "'h hasher \<Rightarrow> bool" where
  "hashlib_contract H \<longleftrightarrow>
     (\<forall>s a b. h_update H (h_update H s a) b = h_update H s (a @ b)) \<and>
     (\<forall>s. h_update H s [] = s)"

text \<open>
  Following the specification's words (section 4.3): Shannon entropy in bits,
  \<open>-\<Sum> p_i * log2 p_i\<close> over the nonzero buckets, with \<open>p_i = count_i / total_bytes\<close>. It is
  what the \<open>entropy\<close> field is compared with; the scan itself does not use it.
\<close>

definition shannon_bits :: "nat list \<Rightarrow> real" where
  "shannon_bits counts =
     (let total = real (sum_list counts)
      in - sum_list (map (\<lambda>c. if c = 0 then 0 else (real c / total) * log 2 (real c / total)) counts))"

text \<open>
  A file as the kernel's pseudo file systems have them (\<open>/sys/devices/software/uevent\<close> is
  one): a regular file whose reported size is 4096 and whose read gives no byte.
\<close>

definition pseudo_file :: fnode where
  "pseudo_file = \<lparr>st_size = 4096, data = [], open_error = None, read_error = None\<rparr>"

section \<open>Properties\<close>

subsection \<open>Helper lemmas\<close>

lemma check_headers_Inl:
  "check_headers EXECUTABLE_HEADERS chunk pdf = Inl desc \<Longrightarrow>
     desc \<in> {''Windows PE (MZ)'', ''Linux ELF'', ''Mach-O (macOS)'', ''Mach-O (macOS 64-bit)''}"
  by (simp add: EXECUTABLE_HEADERS_def PDF_SIG_def ascii_def split: if_splits)

lemma process_chunk_Return:
  "process_chunk L result chunk st = Return r \<Longrightarrow>
     (\<exists>desc. check_headers EXECUTABLE_HEADERS chunk (pdf_checked st) = Inl desc \<and> \<not> header_checked st \<and>
        r = result\<lparr>infected := True, reason := Some (''Suspicious executable header: '' @ desc)\<rparr>)
     \<or> r = result\<lparr>infected := True, reason := Some ''Embedded JavaScript in PDF (potential exploit)''\<rparr>"
  by (auto simp: process_chunk_def Let_def split: sum.splits if_splits)

lemma process_chunk_indep:
  "process_chunk L r chunk st = Next st' \<Longrightarrow> process_chunk L r' chunk st = Next st'"
  by (auto simp: process_chunk_def Let_def split: sum.splits if_splits)

lemma process_chunk_indep_Return:
  "process_chunk L r chunk st = Return x \<Longrightarrow> \<exists>y. process_chunk L r' chunk st = Return y"
  by (auto simp: process_chunk_def Let_def split: sum.splits if_splits)

lemma sum_list_count_bytes:
  "length counts = 256 \<Longrightarrow> sum_list (count_bytes bs counts) = sum_list counts + length bs"
proof (induction bs arbitrary: counts)
  case Nil
  then show ?case by simp
next
  case (Cons b bs)
  have lt: "unat b < length counts"
    using Cons.prems unsigned_less [of b] by simp
  have "sum_list (counts[unat b := counts ! unat b + 1]) = sum_list counts + 1"
    using lt by (simp add: sum_list_update)
  with Cons show ?case by simp
qed

lemma length_count_bytes [simp]: "length (count_bytes bs counts) = length counts"
  by (induction bs arbitrary: counts) auto

lemma process_chunk_Next:
  "process_chunk L r chunk st = Next st' \<Longrightarrow>
     md5_hash st' = h_update (md5 L) (md5_hash st) chunk \<and>
     sha256_hash st' = h_update (sha256 L) (sha256_hash st) chunk \<and>
     byte_counts st' = count_bytes chunk (byte_counts st) \<and>
     header_checked st'"
  by (auto simp: process_chunk_def Let_def split: sum.splits if_splits)

lemma scan_loop_Returned:
  "scan_loop L result evs st = Returned r \<Longrightarrow>
     (\<exists>desc. r = result\<lparr>infected := True, reason := Some (''Suspicious executable header: '' @ desc)\<rparr>)
     \<or> r = result\<lparr>infected := True, reason := Some ''Embedded JavaScript in PDF (potential exploit)''\<rparr>"
proof (induction evs arbitrary: st)
  case Nil
  then show ?case by simp
next
  case (Cons ev evs)
  show ?case
  proof (cases ev)
    case (Chunk chunk)
    show ?thesis
    proof (cases "process_chunk L result chunk st")
      case (Return x)
      with Cons.prems Chunk have "x = r" by simp
      with Return process_chunk_Return [of L result chunk st r] show ?thesis by blast
    next
      case (Next st')
      with Cons.prems Chunk have "scan_loop L result evs st' = Returned r" by simp
      then show ?thesis by (rule Cons.IH)
    qed
  next
    case (ReadFails msg)
    with Cons.prems show ?thesis by simp
  qed
qed

lemma stream_file_Returned:
  "stream_file L result f = Returned r \<Longrightarrow>
     (\<exists>desc. r = result\<lparr>infected := True, reason := Some (''Suspicious executable header: '' @ desc)\<rparr>)
     \<or> r = result\<lparr>infected := True, reason := Some ''Embedded JavaScript in PDF (potential exploit)''\<rparr>"
proof (cases "open_error f")
  case None
  assume "stream_file L result f = Returned r"
  with None have "scan_loop L result (read_events f) (initial_state L) = Returned r"
    by (simp add: stream_file_def)
  then show ?thesis by (rule scan_loop_Returned)
next
  case (Some msg)
  assume "stream_file L result f = Returned r"
  with Some show ?thesis by (simp add: stream_file_def)
qed

lemma scan_loop_indep:
  "scan_loop L r evs st = Exhausted st' \<Longrightarrow> scan_loop L r' evs st = Exhausted st'"
  "scan_loop L r evs st = Raised msg \<Longrightarrow> scan_loop L r' evs st = Raised msg"
proof (induction L r evs st rule: scan_loop.induct)
  case (3 L result chunk evs st)
  {
    case 1
    then show ?case using 3
      by (cases "process_chunk L result chunk st") (auto dest: process_chunk_indep [where r' = r'])
  next
    case 2
    then show ?case using 3
      by (cases "process_chunk L result chunk st") (auto dest: process_chunk_indep [where r' = r'])
  }
qed simp_all

lemma stream_file_indep:
  "stream_file L r f = Exhausted st \<Longrightarrow> stream_file L r' f = Exhausted st"
  "stream_file L r f = Raised msg \<Longrightarrow> stream_file L r' f = Raised msg"
  by (auto simp: stream_file_def split: option.splits dest: scan_loop_indep)

lemma names_signature:
  "names_category (''Suspicious executable header: '' @ d) c \<longleftrightarrow> c = Signature"
  by (cases c) simp_all

lemma names_md5:
  "names_category (''Known malware (MD5): '' @ d) c \<longleftrightarrow> c = DigestBlacklist"
  by (cases c) simp_all

lemma names_sha256:
  "names_category (''Known malware (SHA256): '' @ d) c \<longleftrightarrow> c = DigestBlacklist"
  by (cases c) simp_all

lemma names_entropy:
  "names_category (''High file entropy: '' @ d) c \<longleftrightarrow> c = HighEntropy"
  by (cases c) simp_all

lemma names_script:
  "names_category ''Embedded JavaScript in PDF (potential exploit)'' c \<longleftrightarrow> c = EmbeddedScript"
  by (cases c) simp_all

lemma names_suspicious:
  "names_category ''Suspicious content strings (potential ransomware or command injection)'' c
     \<longleftrightarrow> c = SuspiciousContent"
  by (cases c) simp_all

lemma names_shellcode:
  "names_category ''Potential shellcode pattern (NOP sled detected)'' c \<longleftrightarrow> c = ShellcodePattern"
  by (cases c) simp_all

lemmas names_simps = names_signature names_md5 names_sha256 names_entropy names_script
  names_suspicious names_shellcode

lemma one_category_prefixed:
  "one_category (''Suspicious executable header: '' @ d)"
  "one_category (''Known malware (MD5): '' @ d)"
  "one_category (''Known malware (SHA256): '' @ d)"
  "one_category (''High file entropy: '' @ d)"
  unfolding one_category_def
  by (simp_all only: names_simps simp_thms)

lemma one_category_fixed:
  "one_category ''Embedded JavaScript in PDF (potential exploit)''"
  "one_category ''Suspicious content strings (potential ransomware or command injection)''"
  "one_category ''Potential shellcode pattern (NOP sled detected)''"
  unfolding one_category_def
  by (simp_all only: names_simps simp_thms)

lemma post_stream_md5:
  "KNOWN_BAD_MD5 (h_hexdigest (md5 L) (md5_hash st)) = Some label \<Longrightarrow>
   post_stream L result st =
     result\<lparr>hashes_md5 := Some (h_hexdigest (md5 L) (md5_hash st)),
            hashes_sha256 := Some (h_hexdigest (sha256 L) (sha256_hash st)),
            infected := True, reason := Some (''Known malware (MD5): '' @ label)\<rparr>"
  by (simp add: post_stream_def Let_def)

lemma post_stream_sha256:
  "KNOWN_BAD_MD5 (h_hexdigest (md5 L) (md5_hash st)) = None \<Longrightarrow>
   KNOWN_BAD_SHA256 (h_hexdigest (sha256 L) (sha256_hash st)) = Some label \<Longrightarrow>
   post_stream L result st =
     result\<lparr>hashes_md5 := Some (h_hexdigest (md5 L) (md5_hash st)),
            hashes_sha256 := Some (h_hexdigest (sha256 L) (sha256_hash st)),
            infected := True, reason := Some (''Known malware (SHA256): '' @ label)\<rparr>"
  by (simp add: post_stream_def Let_def)

lemma post_stream_entropy:
  "KNOWN_BAD_MD5 (h_hexdigest (md5 L) (md5_hash st)) = None \<Longrightarrow>
   KNOWN_BAD_SHA256 (h_hexdigest (sha256 L) (sha256_hash st)) = None \<Longrightarrow>
   float_gt (file_entropy_of (byte_counts st)) ENTROPY_THRESHOLD \<Longrightarrow>
   post_stream L result st =
     result\<lparr>hashes_md5 := Some (h_hexdigest (md5 L) (md5_hash st)),
            hashes_sha256 := Some (h_hexdigest (sha256 L) (sha256_hash st)),
            entropy := file_entropy_of (byte_counts st),
            infected := True,
            reason := Some (''High file entropy: '' @
                            (str_float L (file_entropy_of (byte_counts st))
                             @ '' (suspected packed/encrypted malware)''))\<rparr>"
  by (simp add: post_stream_def Let_def)

lemma post_stream_heuristics:
  "KNOWN_BAD_MD5 (h_hexdigest (md5 L) (md5_hash st)) = None \<Longrightarrow>
   KNOWN_BAD_SHA256 (h_hexdigest (sha256 L) (sha256_hash st)) = None \<Longrightarrow>
   \<not> float_gt (file_entropy_of (byte_counts st)) ENTROPY_THRESHOLD \<Longrightarrow>
   post_stream L result st =
     (let result2 = result\<lparr>hashes_md5 := Some (h_hexdigest (md5 L) (md5_hash st)),
            hashes_sha256 := Some (h_hexdigest (sha256 L) (sha256_hash st)),
            entropy := file_entropy_of (byte_counts st)\<rparr>
      in if suspicious_content st then
           result2\<lparr>infected := True,
                   reason := Some ''Suspicious content strings (potential ransomware or command injection)''\<rparr>
         else if shellcode_detected st then
           result2\<lparr>infected := True, reason := Some ''Potential shellcode pattern (NOP sled detected)''\<rparr>
         else result2\<lparr>reason := Some ''Scan completed: No threats detected''\<rparr>)"
  by (simp add: post_stream_def Let_def)

lemma post_stream_reason:
  assumes clean: "\<not> infected result"
  shows "\<exists>rs. reason (post_stream L result st) = Some rs \<and>
           (infected (post_stream L result st) \<longrightarrow> one_category rs)"
proof (cases "KNOWN_BAD_MD5 (h_hexdigest (md5 L) (md5_hash st))")
  case (Some label)
  show ?thesis
    unfolding post_stream_md5 [OF Some] using one_category_prefixed(2) [of label] by simp
next
  case md5_none: None
  show ?thesis
  proof (cases "KNOWN_BAD_SHA256 (h_hexdigest (sha256 L) (sha256_hash st))")
    case (Some label)
    show ?thesis
      unfolding post_stream_sha256 [OF md5_none Some]
      using one_category_prefixed(3) [of label] by simp
  next
    case sha_none: None
    show ?thesis
    proof (cases "float_gt (file_entropy_of (byte_counts st)) ENTROPY_THRESHOLD")
      case True
      show ?thesis
        unfolding post_stream_entropy [OF md5_none sha_none True]
        using one_category_prefixed(4) by simp
    next
      case False
      show ?thesis
        unfolding post_stream_heuristics [OF md5_none sha_none False] Let_def
        using one_category_fixed clean by simp
    qed
  qed
qed

lemma is_infected_Some:
  "fs p = Some f \<Longrightarrow> st_size f \<noteq> 0 \<Longrightarrow>
   is_infected L fs p =
     (case stream_file L (streaming_result p f) f of
        Returned r \<Rightarrow> r
      | Raised msg \<Rightarrow> (streaming_result p f)\<lparr>reason := Some (''Scan error: '' @ msg)\<rparr>
      | Exhausted st \<Rightarrow> post_stream L (streaming_result p f) st)"
  by (simp add: is_infected_def is_infected_try_def Let_def streaming_result_def
           split: outcome.split)

lemma streaming_result_clean [simp]:
  "\<not> infected (streaming_result p f)" "hashes_md5 (streaming_result p f) = None"
  "hashes_sha256 (streaming_result p f) = None" "entropy (streaming_result p f) = Finite 0"
  by (simp_all add: streaming_result_def)

declare chunks.simps [simp del]

lemma CHUNK_SIZE_pos [simp]: "0 < CHUNK_SIZE"
  by (simp add: CHUNK_SIZE_def)

lemma chunks_nonempty:
  "bs \<noteq> [] \<Longrightarrow> chunks CHUNK_SIZE bs = take CHUNK_SIZE bs # chunks CHUNK_SIZE (drop CHUNK_SIZE bs)"
  by (subst chunks.simps) (simp add: CHUNK_SIZE_def)

lemma chunks_small:
  "bs \<noteq> [] \<Longrightarrow> length bs \<le> CHUNK_SIZE \<Longrightarrow> chunks CHUNK_SIZE bs = [bs]"
  by (simp add: chunks_nonempty) (simp add: chunks.simps)

lemma read_events_first:
  assumes "data f \<noteq> []" and "\<forall>msg. read_error f \<noteq> Some (0, msg)"
  shows "\<exists>evs. read_events f = Chunk (take CHUNK_SIZE (data f)) # evs"
proof (cases "read_error f")
  case None
  then show ?thesis using assms(1) by (simp add: read_events_def chunks_nonempty)
next
  case (Some km)
  obtain k msg where km: "km = (k, msg)" by (cases km)
  with Some assms(2) have "k \<noteq> 0" by auto
  then obtain j where "k = Suc j" by (cases k) auto
  with Some km assms(1) show ?thesis
    by (simp add: read_events_def chunks_nonempty Let_def)
qed

lemma process_chunk_MZ:
  "prefix [0x4D, 0x5A] chunk \<Longrightarrow>
   process_chunk L result chunk (initial_state L) =
     Return (result\<lparr>infected := True,
                    reason := Some ''Suspicious executable header: Windows PE (MZ)''\<rparr>)"
  by (simp add: process_chunk_def initial_state_def EXECUTABLE_HEADERS_def startswith_def
        PDF_SIG_def ascii_def)

lemma mz_file_result:
  assumes f: "fs file_path = Some f"
    and sized: "st_size f \<noteq> 0"
    and opened: "open_error f = None"
    and first_read: "\<forall>msg. read_error f \<noteq> Some (0, msg)"
    and mz: "prefix [0x4D, 0x5A] (data f)"
  shows "is_infected L fs file_path =
           \<lparr>infected = True, reason = Some ''Suspicious executable header: Windows PE (MZ)'',
            filename = basename file_path, size = st_size f,
            hashes_md5 = None, hashes_sha256 = None, entropy = Finite 0\<rparr>"
proof -
  from mz have ne: "data f \<noteq> []" by auto
  from mz have "prefix [0x4D, 0x5A] (take CHUNK_SIZE (data f))"
    by (auto simp: prefix_def CHUNK_SIZE_def)
  then have pc: "process_chunk L (streaming_result file_path f) (take CHUNK_SIZE (data f)) (initial_state L) =
     Return ((streaming_result file_path f)\<lparr>infected := True,
                    reason := Some ''Suspicious executable header: Windows PE (MZ)''\<rparr>)"
    by (rule process_chunk_MZ)
  from read_events_first [OF ne first_read] obtain evs
    where evs: "read_events f = Chunk (take CHUNK_SIZE (data f)) # evs" ..
  have "stream_file L (streaming_result file_path f) f =
      Returned ((streaming_result file_path f)\<lparr>infected := True,
                    reason := Some ''Suspicious executable header: Windows PE (MZ)''\<rparr>)"
    using opened evs pc by (simp add: stream_file_def)
  then show ?thesis
    using is_infected_Some [of fs file_path f L, OF f sized] by (simp add: streaming_result_def)
qed

subsection \<open>Entropy bounds\<close>

lemma entr_nonneg: "0 \<le> p \<Longrightarrow> p \<le> 1 \<Longrightarrow> 0 \<le> entr p"
proof -
  assume "0 \<le> p" "p \<le> 1"
  show ?thesis
  proof (cases "0 < p")
    case True
    then have "ln p \<le> 0" using \<open>p \<le> 1\<close> by simp
    then have "0 \<le> p * (- ln p)" using True by (intro mult_nonneg_nonneg) auto
    then show ?thesis using True by (simp add: entr_def)
  next
    case False
    then show ?thesis by (simp add: entr_def)
  qed
qed

lemma entr_le:
  assumes "0 \<le> p" and "0 < n"
  shows "entr p \<le> p * ln n + 1 / n - p"
proof (cases "0 < p")
  case True
  have pos: "0 < 1 / (n * p)" using True assms(2) by simp
  have "ln (1 / (n * p)) \<le> 1 / (n * p) - 1"
    using pos by (rule ln_le_minus_one)
  moreover have "ln (1 / (n * p)) = - ln n - ln p"
    using True assms(2) by (simp add: ln_div ln_mult)
  ultimately have "- ln n - ln p \<le> 1 / (n * p) - 1" by simp
  then have "p * (- ln n - ln p) \<le> p * (1 / (n * p) - 1)"
    using True by (intro mult_left_mono) auto
  moreover have "p * (1 / (n * p) - 1) = 1 / n - p"
    using True assms(2) by (simp add: field_simps)
  ultimately have "p * (- ln n - ln p) \<le> 1 / n - p" by simp
  then show ?thesis using True by (simp add: entr_def algebra_simps)
next
  case False
  with assms have "p = 0" by simp
  then show ?thesis using assms(2) by (simp add: entr_def)
qed

lemma sum_entr_le:
  assumes "\<forall>p \<in> set ps. 0 \<le> p" and "0 < n"
  shows "sum_list (map entr ps) \<le> sum_list ps * ln n + real (length ps) / n - sum_list ps"
  using assms(1)
proof (induction ps)
  case Nil
  then show ?case by simp
next
  case (Cons p ps)
  have "entr p \<le> p * ln n + 1 / n - p"
    using Cons.prems assms(2) by (intro entr_le) auto
  moreover have "sum_list (map entr ps) \<le> sum_list ps * ln n + real (length ps) / n - sum_list ps"
    using Cons by simp
  ultimately show ?case by (simp add: algebra_simps add_divide_distrib)
qed

lemma sum_list_probs:
  "sum_list (map (\<lambda>c. real c / t) cs) = real (sum_list cs) / t"
  by (induction cs) (simp_all add: add_divide_distrib)

lemma ln_256_bound: "ln (256::real) < 79 / 10"
proof -
  have a: "ln (3 / 2 :: real) \<le> 1 / 2"
    using ln_add_one_self_le_self [of "1 / 2 :: real"] by simp
  have b: "ln (4 / 3 :: real) \<le> 1 / 3"
    using ln_add_one_self_le_self [of "1 / 3 :: real"] by simp
  have "ln (2::real) = ln (3 / 2 * (4 / 3))" by simp
  also have "\<dots> = ln (3 / 2 :: real) + ln (4 / 3)"
    by (rule ln_mult_pos) simp_all
  finally have c: "ln (2::real) \<le> 5 / 6" using a b by simp
  have "ln (256::real) = 8 * ln 2"
    using ln_realpow [of "2::real" 8] by simp
  then show ?thesis using c by simp
qed

lemma scipy_entropy_bounds:
  assumes len: "length counts = 256" and t: "t = sum_list counts" and pos: "0 < t"
  shows "0 \<le> scipy_entropy (map (\<lambda>c. real c / real t) counts)"
    and "scipy_entropy (map (\<lambda>c. real c / real t) counts) \<le> ln 256"
proof -
  let ?ps = "map (\<lambda>c. real c / real t) counts"
  have "sum_list ?ps = real (sum_list counts) / real t" by (rule sum_list_probs)
  also have "\<dots> = 1" using pos unfolding t [symmetric] by simp
  finally have one: "sum_list ?ps = 1" .
  have eq: "scipy_entropy ?ps = sum_list (map entr ?ps)"
    unfolding scipy_entropy_def Let_def one by simp
  have nonneg: "\<forall>p \<in> set ?ps. 0 \<le> p" by auto
  have le1: "\<forall>p \<in> set ?ps. p \<le> 1"
  proof
    fix p assume "p \<in> set ?ps"
    then obtain c where c: "c \<in> set counts" "p = real c / real t" by auto
    then have "c \<le> t" unfolding t by (simp add: member_le_sum_list)
    with c pos show "p \<le> 1" by simp
  qed
  have "0 \<le> sum_list (map entr ?ps)"
    using nonneg le1 by (intro sum_list_nonneg) (auto intro: entr_nonneg)
  with eq show "0 \<le> scipy_entropy ?ps" by simp
  have "sum_list (map entr ?ps) \<le> sum_list ?ps * ln 256 + real (length ?ps) / 256 - sum_list ?ps"
    using sum_entr_le [OF nonneg, of 256] by simp
  with one len eq show "scipy_entropy ?ps \<le> ln 256" by simp
qed

lemma file_entropy_of_bounds:
  assumes "length counts = 256"
  shows "file_entropy_of counts = NaN \<and> sum_list counts = 0 \<or>
         (\<exists>e. file_entropy_of counts = Finite e \<and> 0 \<le> e \<and> e \<le> ln 256 \<and> 0 < sum_list counts)"
proof -
  define t where "t = sum_list counts"
  have fe: "file_entropy_of counts =
      (if t = 0 then NaN else Finite (scipy_entropy (map (\<lambda>c. real c / real t) counts)))"
    unfolding file_entropy_of_def probs_def Let_def t_def [symmetric] by simp
  show ?thesis
  proof (cases "t = 0")
    case True
    with fe show ?thesis unfolding t_def [symmetric] by simp
  next
    case False
    then have pos: "0 < t" by simp
    from scipy_entropy_bounds [OF assms t_def pos] fe pos False show ?thesis
      unfolding t_def [symmetric] by simp
  qed
qed

lemma entropy_below_threshold:
  "length counts = 256 \<Longrightarrow> \<not> float_gt (file_entropy_of counts) ENTROPY_THRESHOLD"
  using file_entropy_of_bounds [of counts] ln_256_bound
  by (auto simp: float_gt_def ENTROPY_THRESHOLD_def)

subsection \<open>What the loop has done when the stream is exhausted\<close>

lemma count_bytes_append:
  "count_bytes (as @ bs) counts = count_bytes bs (count_bytes as counts)"
  by (induction as arbitrary: counts) simp_all

lemma scan_loop_Exhausted:
  "scan_loop L r evs st = Exhausted st' \<Longrightarrow>
     \<exists>cs. evs = map Chunk cs \<and>
          md5_hash st' = foldl (h_update (md5 L)) (md5_hash st) cs \<and>
          sha256_hash st' = foldl (h_update (sha256 L)) (sha256_hash st) cs \<and>
          byte_counts st' = count_bytes (concat cs) (byte_counts st)"
proof (induction evs arbitrary: st)
  case Nil
  then show ?case by simp
next
  case (Cons ev evs)
  show ?case
  proof (cases ev)
    case (ReadFails msg)
    with Cons.prems show ?thesis by simp
  next
    case (Chunk chunk)
    show ?thesis
    proof (cases "process_chunk L r chunk st")
      case (Return x)
      with Cons.prems Chunk show ?thesis by simp
    next
      case (Next st1)
      with Cons.prems Chunk have "scan_loop L r evs st1 = Exhausted st'" by simp
      from Cons.IH [OF this] obtain cs where cs: "evs = map Chunk cs"
          "md5_hash st' = foldl (h_update (md5 L)) (md5_hash st1) cs"
          "sha256_hash st' = foldl (h_update (sha256 L)) (sha256_hash st1) cs"
          "byte_counts st' = count_bytes (concat cs) (byte_counts st1)"
        by blast
      from process_chunk_Next [OF Next] cs Chunk
      have "ev # evs = map Chunk (chunk # cs) \<and>
          md5_hash st' = foldl (h_update (md5 L)) (md5_hash st) (chunk # cs) \<and>
          sha256_hash st' = foldl (h_update (sha256 L)) (sha256_hash st) (chunk # cs) \<and>
          byte_counts st' = count_bytes (concat (chunk # cs)) (byte_counts st)"
        by (simp add: count_bytes_append)
      then show ?thesis by (rule exI [where x = "chunk # cs"])
    qed
  qed
qed

lemma concat_chunks: "0 < n \<Longrightarrow> concat (chunks n bs) = bs"
proof (induction n bs rule: chunks.induct)
  case (1 n bs)
  show ?case
  proof (cases "bs = []")
    case True
    then show ?thesis by (simp add: chunks.simps)
  next
    case False
    with 1 have "concat (chunks n (drop n bs)) = drop n bs" by simp
    with False 1 show ?thesis by (subst chunks.simps) simp
  qed
qed

lemma read_events_all_chunks:
  assumes "read_events f = map Chunk cs"
  shows "cs = chunks CHUNK_SIZE (data f)"
proof -
  have inj: "inj Chunk" by (rule injI) simp
  show ?thesis
  proof (cases "read_error f")
    case None
    with assms have "map Chunk (chunks CHUNK_SIZE (data f)) = map Chunk cs"
      by (simp add: read_events_def)
    then show ?thesis using inj by (simp add: inj_map_eq_map)
  next
    case (Some km)
    obtain k msg where km: "km = (k, msg)" by (cases km)
    show ?thesis
    proof (cases "k \<le> length (chunks CHUNK_SIZE (data f))")
      case True
      with Some km assms have "ReadFails msg \<in> set (map Chunk cs)"
        by (simp add: read_events_def Let_def del: set_map) (metis in_set_conv_decomp)
      then show ?thesis by auto
    next
      case False
      with Some km assms have "map Chunk (chunks CHUNK_SIZE (data f)) = map Chunk cs"
        by (simp add: read_events_def Let_def)
      then show ?thesis using inj by (simp add: inj_map_eq_map)
    qed
  qed
qed

lemma stream_file_Exhausted:
  assumes "stream_file L r f = Exhausted st"
  shows "md5_hash st = foldl (h_update (md5 L)) (h_new (md5 L)) (chunks CHUNK_SIZE (data f))"
    and "sha256_hash st = foldl (h_update (sha256 L)) (h_new (sha256 L)) (chunks CHUNK_SIZE (data f))"
    and "byte_counts st = count_bytes (data f) (replicate 256 0)"
proof -
  from assms have loop: "scan_loop L r (read_events f) (initial_state L) = Exhausted st"
    by (cases "open_error f") (simp_all add: stream_file_def)
  from scan_loop_Exhausted [OF loop] obtain cs where cs: "read_events f = map Chunk cs"
      "md5_hash st = foldl (h_update (md5 L)) (md5_hash (initial_state L)) cs"
      "sha256_hash st = foldl (h_update (sha256 L)) (sha256_hash (initial_state L)) cs"
      "byte_counts st = count_bytes (concat cs) (byte_counts (initial_state L))"
    by blast
  from read_events_all_chunks [OF cs(1)] have eq: "cs = chunks CHUNK_SIZE (data f)" .
  then have "concat cs = data f" by (simp add: concat_chunks)
  with cs eq show
    "md5_hash st = foldl (h_update (md5 L)) (h_new (md5 L)) (chunks CHUNK_SIZE (data f))"
    "sha256_hash st = foldl (h_update (sha256 L)) (h_new (sha256 L)) (chunks CHUNK_SIZE (data f))"
    "byte_counts st = count_bytes (data f) (replicate 256 0)"
    by (simp_all add: initial_state_def)
qed

lemma histogram_total:
  "length (count_bytes bs (replicate 256 0)) = 256"
  "sum_list (count_bytes bs (replicate 256 0)) = length bs"
  by (simp_all add: sum_list_count_bytes)

lemma stream_file_Returned_fields:
  assumes "stream_file L result f = Returned r"
  shows "entropy r = entropy result" "hashes_md5 r = hashes_md5 result"
    "hashes_sha256 r = hashes_sha256 result" "infected r"
    "\<exists>rs. reason r = Some rs \<and> \<not> names_category rs HighEntropy"
  using stream_file_Returned [OF assms] by auto

lemma exhausted_counts:
  assumes "stream_file L r f = Exhausted st"
  shows "length (byte_counts st) = 256" "sum_list (byte_counts st) = length (data f)"
  using stream_file_Exhausted(3) [OF assms] histogram_total [of "data f"] by simp_all

lemma post_stream_below:
  assumes "length (byte_counts st) = 256"
  shows "post_stream L result st =
     (let md5_hex = h_hexdigest (md5 L) (md5_hash st);
          sha256_hex = h_hexdigest (sha256 L) (sha256_hash st);
          result1 = result\<lparr>hashes_md5 := Some md5_hex, hashes_sha256 := Some sha256_hex\<rparr>
      in case KNOWN_BAD_MD5 md5_hex of
           Some label \<Rightarrow>
             result1\<lparr>infected := True, reason := Some (''Known malware (MD5): '' @ label)\<rparr>
         | None \<Rightarrow>
        (case KNOWN_BAD_SHA256 sha256_hex of
           Some label \<Rightarrow>
             result1\<lparr>infected := True, reason := Some (''Known malware (SHA256): '' @ label)\<rparr>
         | None \<Rightarrow>
        (let result2 = result1\<lparr>entropy := file_entropy_of (byte_counts st)\<rparr>
         in if suspicious_content st then
              result2\<lparr>infected := True,
                      reason := Some ''Suspicious content strings (potential ransomware or command injection)''\<rparr>
            else if shellcode_detected st then
              result2\<lparr>infected := True,
                      reason := Some ''Potential shellcode pattern (NOP sled detected)''\<rparr>
            else result2\<lparr>reason := Some ''Scan completed: No threats detected''\<rparr>)))"
  using entropy_below_threshold [OF assms]
  by (simp add: post_stream_def Let_def split: option.split)

lemma post_stream_below_facts:
  assumes "length (byte_counts st) = 256"
  shows "entropy (post_stream L result st) = entropy result \<or>
         entropy (post_stream L result st) = file_entropy_of (byte_counts st)"
    and "\<exists>rs. reason (post_stream L result st) = Some rs \<and> \<not> names_category rs HighEntropy"
  unfolding post_stream_below [OF assms] Let_def
  by (simp_all split: option.split)

lemma post_stream_hashes:
  "hashes_md5 (post_stream L result st) = Some (h_hexdigest (md5 L) (md5_hash st))"
  "hashes_sha256 (post_stream L result st) = Some (h_hexdigest (sha256 L) (sha256_hash st))"
  by (simp_all add: post_stream_def Let_def split: option.split)

lemma foldl_update_concat:
  assumes "hashlib_contract H"
  shows "foldl (h_update H) s cs = h_update H s (concat cs)"
proof (induction cs arbitrary: s)
  case Nil
  from assms show ?case by (simp add: hashlib_contract_def)
next
  case (Cons c cs)
  from assms have "h_update H (h_update H s c) (concat cs) = h_update H s (c @ concat cs)"
    by (simp add: hashlib_contract_def)
  with Cons show ?case by simp
qed

lemma is_infected_hashes:
  assumes "fs file_path = Some f"
  shows "hashes_md5 (is_infected L fs file_path) = None \<and>
         hashes_sha256 (is_infected L fs file_path) = None \<or>
         (\<exists>st. stream_file L (streaming_result file_path f) f = Exhausted st \<and>
           hashes_md5 (is_infected L fs file_path) = Some (h_hexdigest (md5 L) (md5_hash st)) \<and>
           hashes_sha256 (is_infected L fs file_path) = Some (h_hexdigest (sha256 L) (sha256_hash st)))"
proof (cases "st_size f = 0")
  case True
  with assms show ?thesis by (simp add: is_infected_def is_infected_try_def)
next
  case False
  note eq = is_infected_Some [of fs file_path f L, OF assms False]
  show ?thesis
  proof (cases "stream_file L (streaming_result file_path f) f")
    case (Returned r)
    with eq stream_file_Returned_fields(2,3) [OF Returned] show ?thesis by simp
  next
    case (Raised msg)
    with eq show ?thesis by simp
  next
    case (Exhausted st)
    with eq show ?thesis by (simp add: post_stream_hashes)
  qed
qed

lemma process_chunk_checked:
  assumes "header_checked st" and "\<not> pdf_checked st"
  shows "\<exists>st'. process_chunk L r chunk st = Next st' \<and> header_checked st' \<and> \<not> pdf_checked st' \<and>
           (suspicious_content st' \<longleftrightarrow> suspicious_content st \<or> has_suspicious_string chunk) \<and>
           (shellcode_detected st' \<longleftrightarrow> shellcode_detected st \<or> bytes_in NOP_SLED chunk)"
  using assms by (simp add: process_chunk_def Let_def has_suspicious_string_def)

lemma process_chunk_plain:
  assumes "check_headers EXECUTABLE_HEADERS chunk False = Inr False"
  shows "\<exists>st'. process_chunk L r chunk (initial_state L) = Next st' \<and>
           header_checked st' \<and> \<not> pdf_checked st' \<and>
           (suspicious_content st' \<longleftrightarrow> has_suspicious_string chunk) \<and>
           (shellcode_detected st' \<longleftrightarrow> bytes_in NOP_SLED chunk)"
  using assms by (simp add: process_chunk_def Let_def has_suspicious_string_def initial_state_def)

lemma scan_loop_checked:
  assumes "header_checked st" and "\<not> pdf_checked st"
  shows "\<exists>st'. scan_loop L r (map Chunk cs) st = Exhausted st' \<and>
           (suspicious_content st' \<longleftrightarrow>
              suspicious_content st \<or> (\<exists>c \<in> set cs. has_suspicious_string c)) \<and>
           (shellcode_detected st' \<longleftrightarrow>
              shellcode_detected st \<or> (\<exists>c \<in> set cs. bytes_in NOP_SLED c))"
  using assms
proof (induction cs arbitrary: st)
  case Nil
  then show ?case by simp
next
  case (Cons c cs)
  from process_chunk_checked [OF Cons.prems, of L r c] obtain st1
    where st1: "process_chunk L r c st = Next st1" "header_checked st1" "\<not> pdf_checked st1"
      "suspicious_content st1 \<longleftrightarrow> suspicious_content st \<or> has_suspicious_string c"
      "shellcode_detected st1 \<longleftrightarrow> shellcode_detected st \<or> bytes_in NOP_SLED c"
    by blast
  from Cons.IH [OF st1(2,3)] obtain st'
    where st': "scan_loop L r (map Chunk cs) st1 = Exhausted st'"
      "suspicious_content st' \<longleftrightarrow>
         suspicious_content st1 \<or> (\<exists>c \<in> set cs. has_suspicious_string c)"
      "shellcode_detected st' \<longleftrightarrow>
         shellcode_detected st1 \<or> (\<exists>c \<in> set cs. bytes_in NOP_SLED c)"
    by blast
  have "scan_loop L r (map Chunk (c # cs)) st = Exhausted st'"
    using st1(1) st'(1) by simp
  moreover have "suspicious_content st' \<longleftrightarrow>
      suspicious_content st \<or> (\<exists>c \<in> set (c # cs). has_suspicious_string c)"
    using st1(4) st'(2) by auto
  moreover have "shellcode_detected st' \<longleftrightarrow>
      shellcode_detected st \<or> (\<exists>c \<in> set (c # cs). bytes_in NOP_SLED c)"
    using st1(5) st'(3) by auto
  ultimately show ?case by blast
qed

lemma plain_file_exhausts:
  assumes opened: "open_error f = None" and reads: "read_error f = None"
    and ne: "data f \<noteq> []"
    and plain: "check_headers EXECUTABLE_HEADERS (take CHUNK_SIZE (data f)) False = Inr False"
  shows "\<exists>st. stream_file L r f = Exhausted st \<and>
           (suspicious_content st \<longleftrightarrow>
              (\<exists>c \<in> set (chunks CHUNK_SIZE (data f)). has_suspicious_string c)) \<and>
           (shellcode_detected st \<longleftrightarrow>
              (\<exists>c \<in> set (chunks CHUNK_SIZE (data f)). bytes_in NOP_SLED c))"
proof -
  let ?c = "take CHUNK_SIZE (data f)"
  let ?cs = "chunks CHUNK_SIZE (drop CHUNK_SIZE (data f))"
  have cs: "chunks CHUNK_SIZE (data f) = ?c # ?cs" using ne by (rule chunks_nonempty)
  from process_chunk_plain [OF plain, of L r] obtain st1
    where st1: "process_chunk L r ?c (initial_state L) = Next st1"
      "header_checked st1" "\<not> pdf_checked st1"
      "suspicious_content st1 \<longleftrightarrow> has_suspicious_string ?c"
      "shellcode_detected st1 \<longleftrightarrow> bytes_in NOP_SLED ?c"
    by blast
  from scan_loop_checked [OF st1(2,3), of L r ?cs] obtain st
    where st: "scan_loop L r (map Chunk ?cs) st1 = Exhausted st"
      "suspicious_content st \<longleftrightarrow>
         suspicious_content st1 \<or> (\<exists>c \<in> set ?cs. has_suspicious_string c)"
      "shellcode_detected st \<longleftrightarrow>
         shellcode_detected st1 \<or> (\<exists>c \<in> set ?cs. bytes_in NOP_SLED c)"
    by blast
  have "stream_file L r f = Exhausted st"
    using opened reads st1(1) st(1) by (simp add: stream_file_def read_events_def cs)
  moreover have "suspicious_content st \<longleftrightarrow>
      (\<exists>c \<in> set (chunks CHUNK_SIZE (data f)). has_suspicious_string c)"
    unfolding cs using st1(4) st(2) by auto
  moreover have "shellcode_detected st \<longleftrightarrow>
      (\<exists>c \<in> set (chunks CHUNK_SIZE (data f)). bytes_in NOP_SLED c)"
    unfolding cs using st1(5) st(3) by auto
  ultimately show ?thesis by blast
qed

lemma check_headers_plain:
  assumes "chunk \<noteq> []" and "hd chunk \<notin> {0x4D, 0x7F, 0xFE, 0x25}"
  shows "check_headers EXECUTABLE_HEADERS chunk False = Inr False"
proof -
  from assms(1) obtain b bs where c: "chunk = b # bs" by (cases chunk) auto
  with assms(2) show ?thesis
    by (simp add: EXECUTABLE_HEADERS_def startswith_def PDF_SIG_def ascii_def)
qed

lemma readable_simps [simp]:
  "data (readable bs) = bs" "open_error (readable bs) = None" "read_error (readable bs) = None"
  "st_size (readable bs) = length bs"
  by (simp_all add: readable_def)

lemma one_file_same [simp]: "one_file p f p = Some f"
  by (simp add: one_file_def)

lemma small_plain_file_exhausts:
  assumes "bs \<noteq> []" and "length bs \<le> CHUNK_SIZE" and "hd bs \<notin> {0x4D, 0x7F, 0xFE, 0x25}"
  shows "\<exists>st. stream_file L r (readable bs) = Exhausted st \<and>
           (suspicious_content st \<longleftrightarrow> has_suspicious_string bs) \<and>
           (shellcode_detected st \<longleftrightarrow> bytes_in NOP_SLED bs)"
proof -
  have "check_headers EXECUTABLE_HEADERS (take CHUNK_SIZE (data (readable bs))) False = Inr False"
    using assms by (intro check_headers_plain) simp_all
  from plain_file_exhausts [OF _ _ _ this, of L r] assms show ?thesis
    by (simp add: chunks_small)
qed

lemma checksum_contract: "hashlib_contract (checksum_hasher render)"
  by (simp add: hashlib_contract_def checksum_hasher_def)

subsection \<open>Concrete files\<close>

lemma exhausted_result:
  assumes "fs p = Some f" and "st_size f \<noteq> 0" and "stream_file L r f = Exhausted st"
  shows "is_infected L fs p = post_stream L (streaming_result p f) st"
proof -
  from assms(3) have "stream_file L (streaming_result p f) f = Exhausted st"
    by (rule stream_file_indep(1))
  with is_infected_Some [of fs p f L, OF assms(1,2)] show ?thesis by simp
qed

lemma count_list_replicate: "count_list (replicate n y) x = (if x = y then n else 0)"
  by (induction n) auto

lemma sublist_count_le:
  assumes "sublist xs ys"
  shows "count_list xs x \<le> count_list ys x"
proof -
  from assms obtain ps ss where "ys = ps @ xs @ ss" by (auto simp: sublist_def)
  then show ?thesis by simp
qed

lemma sublist_needs_bytes:
  assumes "b \<in> set needle" and "b \<notin> set hay"
  shows "\<not> sublist needle hay"
  using assms set_mono_sublist [of needle hay] by auto

lemma no_suspicious_string:
  assumes "set (lower chunk) \<subseteq> {0x00, 0x90}"
  shows "\<not> has_suspicious_string chunk"
proof -
  have "\<not> sublist s (lower chunk)" if "s \<in> set suspicious_strings" for s
  proof -
    from that have "\<exists>b \<in> set s. b \<notin> {0x00, 0x90 :: byte}"
      by (auto simp: suspicious_strings_def ascii_def)
    then obtain b where "b \<in> set s" "b \<notin> {0x00, 0x90 :: byte}" by blast
    with assms show ?thesis by (intro sublist_needs_bytes [of b]) auto
  qed
  then show ?thesis
    by (auto simp: has_suspicious_string_def bytes_in_def list_ex_iff)
qed

lemma sled_chunks:
  "chunks CHUNK_SIZE (replicate 8182 0x00 @ replicate 20 0x90) =
     [replicate 8182 0x00 @ replicate 10 0x90, replicate 10 0x90]"
proof -
  have "chunks CHUNK_SIZE (replicate 10 (0x90 :: byte)) = [replicate 10 0x90]"
    by (rule chunks_small) (simp_all add: CHUNK_SIZE_def)
  then show ?thesis
    by (subst chunks_nonempty) (simp_all add: CHUNK_SIZE_def)
qed

lemma half_sled_not_found:
  "\<not> bytes_in NOP_SLED (replicate n 0x00 @ replicate 10 0x90)"
  "\<not> bytes_in NOP_SLED (replicate 10 0x90)"
proof -
  have "\<not> sublist (replicate 20 (0x90 :: byte)) (replicate n 0x00 @ replicate 10 0x90)"
    using sublist_count_le [of "replicate 20 (0x90 :: byte)" "replicate n 0x00 @ replicate 10 0x90" "0x90"]
    by (auto simp: count_list_replicate)
  then show "\<not> bytes_in NOP_SLED (replicate n 0x00 @ replicate 10 0x90)"
    by (simp add: bytes_in_def NOP_SLED_def)
  have "\<not> sublist (replicate 20 (0x90 :: byte)) (replicate 10 0x90)"
    using sublist_length_le [of "replicate 20 (0x90 :: byte)" "replicate 10 0x90"] by auto
  then show "\<not> bytes_in NOP_SLED (replicate 10 0x90)"
    by (simp add: bytes_in_def NOP_SLED_def)
qed

lemma lower_replicate: "lower (replicate n b) = replicate n (lower_byte b)"
  by (simp add: lower_def)

lemma lower_append: "lower (xs @ ys) = lower xs @ lower ys"
  by (simp add: lower_def)

lemma lower_byte_fixed: "lower_byte 0x00 = 0x00" "lower_byte 0x90 = 0x90"
  by (simp_all add: lower_byte_def)

lemma hex16_unlisted: "KNOWN_BAD_MD5 (hex16 n) = None" "KNOWN_BAD_SHA256 (hex16 n) = None"
  by (simp_all add: hex16_def KNOWN_BAD_MD5_def KNOWN_BAD_SHA256_def)

lemma demo_hexdigest:
  "h_hexdigest (md5 (demo_libs a b)) = a" "h_hexdigest (sha256 (demo_libs a b)) = b"
  by (simp_all add: demo_libs_def checksum_hasher_def)

lemma ln_2_bound: "ln (2::real) \<le> 5 / 6"
proof -
  have a: "ln (3 / 2 :: real) \<le> 1 / 2"
    using ln_add_one_self_le_self [of "1 / 2 :: real"] by simp
  have b: "ln (4 / 3 :: real) \<le> 1 / 3"
    using ln_add_one_self_le_self [of "1 / 3 :: real"] by simp
  have "ln (2::real) = ln (3 / 2 * (4 / 3))" by simp
  also have "\<dots> = ln (3 / 2 :: real) + ln (4 / 3)"
    by (rule ln_mult_pos) simp_all
  finally show ?thesis using a b by simp
qed

lemma two_byte_histogram:
  "count_bytes [0x00, 0x01] (replicate 256 0) = 1 # 1 # replicate 254 0"
proof -
  have "replicate 256 (0::nat) = replicate 2 0 @ replicate 254 0"
    by (simp add: replicate_add [symmetric])
  also have "replicate 2 (0::nat) = [0, 0]" by (simp add: numeral_2_eq_2)
  finally show ?thesis by simp
qed

lemma two_byte_entropy: "file_entropy_of (1 # 1 # replicate 254 0) = Finite (ln 2)"
proof -
  have t: "sum_list (1 # 1 # replicate 254 (0::nat)) = 2" by (simp add: sum_list_replicate)
  have pr: "probs (1 # 1 # replicate 254 0) = Some (1 / 2 # 1 / 2 # replicate 254 0)"
    unfolding probs_def Let_def t by simp
  have e: "entr (1 / 2) = ln 2 / 2" "entr 0 = 0" by (simp_all add: entr_def ln_div)
  have "scipy_entropy (1 / 2 # 1 / 2 # replicate 254 0) = ln 2"
    by (simp add: scipy_entropy_def Let_def sum_list_replicate e)
  with pr show ?thesis by (simp add: file_entropy_of_def)
qed

lemma two_byte_bits: "shannon_bits (1 # 1 # replicate 254 0) = 1"
proof -
  have t: "sum_list (1 # 1 # replicate 254 (0::nat)) = 2" by (simp add: sum_list_replicate)
  have "log 2 (1 / 2 :: real) = - 1" by (simp add: log_divide)
  then show ?thesis unfolding shannon_bits_def Let_def t by (simp add: sum_list_replicate)
qed

lemma uniform_entropy: "file_entropy_of (replicate 256 (Suc n)) = Finite (ln 256)"
proof -
  let ?t = "real (sum_list (replicate 256 (Suc n)))"
  have t: "?t = 256 * real (Suc n)" by (simp add: sum_list_replicate)
  have p: "real (Suc n) / ?t = 1 / 256" unfolding t by simp
  have nz: "sum_list (replicate 256 (Suc n)) \<noteq> 0" by simp
  have pr: "probs (replicate 256 (Suc n)) = Some (replicate 256 (1 / 256))"
    unfolding probs_def Let_def using nz p by (simp del: sum_list_eq_0_iff of_nat_Suc)
  have "entr (1 / 256) = ln 256 / 256" by (simp add: entr_def ln_div)
  then have "scipy_entropy (replicate 256 (1 / 256)) = ln 256"
    by (simp add: scipy_entropy_def Let_def sum_list_replicate)
  with pr show ?thesis by (simp add: file_entropy_of_def)
qed

lemma uniform_bits: "shannon_bits (replicate 256 (Suc n)) = 8"
proof -
  let ?t = "real (sum_list (replicate 256 (Suc n)))"
  have t: "?t = 256 * real (Suc n)" by (simp add: sum_list_replicate)
  have p: "real (Suc n) / ?t = 1 / 256" unfolding t by simp
  have "log 2 (256 :: real) = log 2 (2 ^ 8)" by simp
  also have "\<dots> = 8" by (subst log_nat_power) simp_all
  finally have "log 2 (1 / 256 :: real) = - 8" by (simp add: log_divide)
  then have "(\<lambda>c. if c = 0 then 0 else (real c / ?t) * log 2 (real c / ?t)) (Suc n) = - 8 / 256"
    unfolding p by simp
  then have "shannon_bits (replicate 256 (Suc n)) = - (256 * (- 8 / 256))"
    unfolding shannon_bits_def Let_def map_replicate sum_list_replicate by simp
  then show ?thesis by simp
qed

subsection \<open>A positive size and nothing to read\<close>

lemma chunks_empty [simp]: "chunks n [] = []"
  by (simp add: chunks.simps)

lemma nothing_read:
  assumes "data f = []" and "open_error f = None" and "\<forall>msg. read_error f \<noteq> Some (0, msg)"
  shows "stream_file L r f = Exhausted (initial_state L)"
proof (cases "read_error f")
  case None
  with assms show ?thesis by (simp add: stream_file_def read_events_def)
next
  case (Some km)
  obtain k msg where km: "km = (k, msg)" by (cases km)
  with Some assms(3) have "k \<noteq> 0" by auto
  with Some km assms show ?thesis by (simp add: stream_file_def read_events_def)
qed

lemma initial_histogram:
  "byte_counts (initial_state L) = replicate 256 0"
  "probs (replicate 256 0) = None"
  "file_entropy_of (replicate 256 0) = NaN"
  by (simp_all add: initial_state_def probs_def file_entropy_of_def)

lemma nothing_read_result:
  assumes f: "fs p = Some f" and sized: "st_size f \<noteq> 0"
    and empty: "data f = []" and opened: "open_error f = None"
    and reads: "\<forall>msg. read_error f \<noteq> Some (0, msg)"
    and md5_unlisted: "KNOWN_BAD_MD5 (h_hexdigest (md5 L) (h_new (md5 L))) = None"
    and sha256_unlisted: "KNOWN_BAD_SHA256 (h_hexdigest (sha256 L) (h_new (sha256 L))) = None"
  shows "is_infected L fs p =
     \<lparr>infected = False, reason = Some ''Scan completed: No threats detected'',
      filename = basename p, size = st_size f,
      hashes_md5 = Some (h_hexdigest (md5 L) (h_new (md5 L))),
      hashes_sha256 = Some (h_hexdigest (sha256 L) (h_new (sha256 L))),
      entropy = NaN\<rparr>"
proof -
  have ex: "stream_file L (streaming_result p f) f = Exhausted (initial_state L)"
    using empty opened reads by (rule nothing_read)
  have R: "is_infected L fs p = post_stream L (streaming_result p f) (initial_state L)"
    using f sized ex by (rule exhausted_result)
  show ?thesis
    unfolding R post_stream_def Let_def
    using md5_unlisted sha256_unlisted
    by (simp add: initial_state_def initial_histogram float_gt_def streaming_result_def)
qed

lemma entropy_NaN_only_if:
  assumes nan: "entropy (is_infected L fs p) = NaN"
  shows "\<exists>f. fs p = Some f \<and> st_size f \<noteq> 0 \<and> data f = [] \<and> open_error f = None \<and>
           (\<forall>msg. read_error f \<noteq> Some (0, msg)) \<and>
           KNOWN_BAD_MD5 (h_hexdigest (md5 L) (h_new (md5 L))) = None \<and>
           KNOWN_BAD_SHA256 (h_hexdigest (sha256 L) (h_new (sha256 L))) = None"
proof (cases "fs p")
  case None
  with nan show ?thesis by (simp add: is_infected_def is_infected_try_def)
next
  case (Some f)
  show ?thesis
  proof (cases "st_size f = 0")
    case True
    with Some nan show ?thesis by (simp add: is_infected_def is_infected_try_def)
  next
    case False
    note eq = is_infected_Some [of fs p f L, OF Some False]
    show ?thesis
    proof (cases "stream_file L (streaming_result p f) f")
      case (Returned r)
      with eq nan stream_file_Returned_fields(1) [OF Returned] show ?thesis by simp
    next
      case (Raised msg)
      with eq nan show ?thesis by simp
    next
      case (Exhausted st)
      note cnt = exhausted_counts [OF Exhausted]
      from eq Exhausted nan
      have pn: "entropy (post_stream L (streaming_result p f) st) = NaN" by simp
      have unl: "KNOWN_BAD_MD5 (h_hexdigest (md5 L) (md5_hash st)) = None \<and>
            KNOWN_BAD_SHA256 (h_hexdigest (sha256 L) (sha256_hash st)) = None \<and>
            file_entropy_of (byte_counts st) = NaN"
        using pn unfolding post_stream_below [OF cnt(1)] Let_def
        by (auto split: option.splits if_splits)
      with file_entropy_of_bounds [OF cnt(1)] cnt(2) have empty: "data f = []" by auto
      from Exhausted have opened: "open_error f = None"
        by (cases "open_error f") (simp_all add: stream_file_def)
      have reads: "\<forall>msg. read_error f \<noteq> Some (0, msg)"
      proof (intro allI notI)
        fix msg assume "read_error f = Some (0, msg)"
        with opened empty have "stream_file L (streaming_result p f) f = Raised msg"
          by (simp add: stream_file_def read_events_def)
        with Exhausted show False by simp
      qed
      from stream_file_Exhausted(1,2) [OF Exhausted] empty
      have "md5_hash st = h_new (md5 L)" "sha256_hash st = h_new (sha256 L)" by simp_all
      with unl Some False empty opened reads show ?thesis by simp
    qed
  qed
qed

subsection \<open>Digests of the chunks read\<close>

lemma exhausted_hashes:
  assumes f: "fs p = Some f" and sized: "st_size f \<noteq> 0"
    and ex: "stream_file L r f = Exhausted st"
  shows "hashes_md5 (is_infected L fs p) =
           Some (h_hexdigest (md5 L)
             (foldl (h_update (md5 L)) (h_new (md5 L)) (chunks CHUNK_SIZE (data f))))"
    and "hashes_sha256 (is_infected L fs p) =
           Some (h_hexdigest (sha256 L)
             (foldl (h_update (sha256 L)) (h_new (sha256 L)) (chunks CHUNK_SIZE (data f))))"
  using exhausted_result [of fs p f L r st, OF f sized ex] stream_file_Exhausted(1,2) [OF ex]
  by (simp_all add: post_stream_hashes)

lemma chunks_one_shot:
  assumes "hashlib_contract H"
  shows "h_hexdigest H (foldl (h_update H) (h_new H) (chunks CHUNK_SIZE bs)) = one_shot H bs"
  by (simp add: foldl_update_concat [OF assms] concat_chunks one_shot_def)

lemma scan_loop_digests:
  assumes md5_ok: "hashlib_contract (md5 L)" and sha256_ok: "hashlib_contract (sha256 L)"
    and loop: "scan_loop L r (map Chunk cs) (initial_state L) = Exhausted st"
  shows "h_hexdigest (md5 L) (md5_hash st) = one_shot (md5 L) (concat cs)"
    and "h_hexdigest (sha256 L) (sha256_hash st) = one_shot (sha256 L) (concat cs)"
proof -
  from scan_loop_Exhausted [OF loop] obtain cs' where cs': "map Chunk cs = map Chunk cs'"
      "md5_hash st = foldl (h_update (md5 L)) (md5_hash (initial_state L)) cs'"
      "sha256_hash st = foldl (h_update (sha256 L)) (sha256_hash (initial_state L)) cs'"
    by blast
  have "inj Chunk" by (rule injI) simp
  with cs'(1) have "cs' = cs" by (simp add: inj_map_eq_map)
  with cs'(2,3) show "h_hexdigest (md5 L) (md5_hash st) = one_shot (md5 L) (concat cs)"
    and "h_hexdigest (sha256 L) (sha256_hash st) = one_shot (sha256 L) (concat cs)"
    by (simp_all add: foldl_update_concat [OF md5_ok] foldl_update_concat [OF sha256_ok]
          one_shot_def initial_state_def)
qed

lemma demo_one_shot_hello:
  "one_shot (md5 (demo_libs hex16 hex16)) (ascii ''hello'') = ''7179''"
  "one_shot (sha256 (demo_libs hex16 hex16)) (ascii ''hello'') = ''7179''"
  by (simp_all add: one_shot_def demo_libs_def checksum_hasher_def hex16_def ascii_def)

subsection \<open>Validation\<close>

text \<open>
  C7. Validation comes before any streaming. A path that is no existing regular file gives
  the untouched result with the reason "File does not exist"; an existing file of length
  zero (\<open>os.path.getsize\<close> gives 0) gives it with the reason "File is empty" and size
  0, whatever opening or reading the file would do. In both results the two hashes are null
  and the entropy is 0.0.
\<close>

theorem validation_short_circuits:
  "(fs file_path = None \<longrightarrow>
      is_infected L fs file_path =
        \<lparr>infected = False, reason = Some ''File does not exist'',
         filename = basename file_path, size = 0,
         hashes_md5 = None, hashes_sha256 = None, entropy = Finite 0\<rparr>) \<and>
   (\<forall>f. fs file_path = Some f \<longrightarrow> st_size f = 0 \<longrightarrow>
      is_infected L fs file_path =
        \<lparr>infected = False, reason = Some ''File is empty'',
         filename = basename file_path, size = 0,
         hashes_md5 = None, hashes_sha256 = None, entropy = Finite 0\<rparr>)"
  by (simp add: is_infected_def is_infected_try_def)

theorem validation_short_circuits_witness:
  "is_infected (demo_libs hex16 hex16)
       (one_file ''/tmp/empty.bin'' \<lparr>st_size = 0, data = [], open_error = Some ''denied'', read_error = None\<rparr>)
       ''/tmp/missing.bin'' =
     \<lparr>infected = False, reason = Some ''File does not exist'', filename = ''missing.bin'',
      size = 0, hashes_md5 = None, hashes_sha256 = None, entropy = Finite 0\<rparr> \<and>
   is_infected (demo_libs hex16 hex16)
       (one_file ''/tmp/empty.bin'' \<lparr>st_size = 0, data = [], open_error = Some ''denied'', read_error = None\<rparr>)
       ''/tmp/empty.bin'' =
     \<lparr>infected = False, reason = Some ''File is empty'', filename = ''empty.bin'',
      size = 0, hashes_md5 = None, hashes_sha256 = None, entropy = Finite 0\<rparr>"
  using validation_short_circuits
          [of "one_file ''/tmp/empty.bin'' \<lparr>st_size = 0, data = [], open_error = Some ''denied'', read_error = None\<rparr>"
              "''/tmp/missing.bin''" "demo_libs hex16 hex16"]
        validation_short_circuits
          [of "one_file ''/tmp/empty.bin'' \<lparr>st_size = 0, data = [], open_error = Some ''denied'', read_error = None\<rparr>"
              "''/tmp/empty.bin''" "demo_libs hex16 hex16"]
  by (simp add: one_file_def basename_def)

subsection \<open>Errors\<close>

text \<open>
  C2. \<open>is_infected\<close> is a total function into results: the handler around the body turns
  every exception into a result. When opening the file or one of the reads raises with
  message \<open>msg\<close> (the streaming ends in \<open>Raised msg\<close>), the result is not infected, its
  reason is "Scan error: " followed by the message, and nothing else in it has been filled
  in but the size.
\<close>

theorem scan_error_not_infected:
  "fs file_path = Some f \<Longrightarrow> st_size f \<noteq> 0 \<Longrightarrow> stream_file L r f = Raised msg \<Longrightarrow>
   is_infected L fs file_path =
     \<lparr>infected = False, reason = Some (''Scan error: '' @ msg), filename = basename file_path,
      size = st_size f, hashes_md5 = None, hashes_sha256 = None, entropy = Finite 0\<rparr>"
proof -
  assume f: "fs file_path = Some f" and ne: "st_size f \<noteq> 0" and raised: "stream_file L r f = Raised msg"
  have "stream_file L (streaming_result file_path f) f = Raised msg"
    using raised by (rule stream_file_indep(2))
  then show ?thesis
    using is_infected_Some [of fs file_path f L, OF f ne] by (simp add: streaming_result_def)
qed

theorem scan_error_not_infected_witness:
  "is_infected (demo_libs hex16 hex16)
     (one_file ''/srv/in/a.txt'' \<lparr>st_size = 5, data = ascii ''hello'', open_error = None,
                                   read_error = Some (1, ''[Errno 5] Input/output error'')\<rparr>)
     ''/srv/in/a.txt'' =
   \<lparr>infected = False, reason = Some ''Scan error: [Errno 5] Input/output error'',
    filename = ''a.txt'', size = 5,
    hashes_md5 = None, hashes_sha256 = None, entropy = Finite 0\<rparr>"
proof -
  let ?f = "\<lparr>st_size = 5, data = ascii ''hello'', open_error = None,
             read_error = Some (1, ''[Errno 5] Input/output error'')\<rparr>"
  let ?L = "demo_libs hex16 hex16"
  have ev: "read_events ?f = [Chunk (ascii ''hello''), ReadFails ''[Errno 5] Input/output error'']"
  proof -
    have "chunks CHUNK_SIZE (ascii ''hello'') = [ascii ''hello'']"
      by (rule chunks_small) (simp_all add: ascii_def CHUNK_SIZE_def)
    then show ?thesis by (simp add: read_events_def)
  qed
  have "\<exists>st. process_chunk ?L (streaming_result ''/srv/in/a.txt'' ?f) (ascii ''hello'') (initial_state ?L) = Next st"
    by (simp add: process_chunk_def initial_state_def EXECUTABLE_HEADERS_def startswith_def
        PDF_SIG_def ascii_def Let_def)
  then have raised: "stream_file ?L (streaming_result ''/srv/in/a.txt'' ?f) ?f = Raised ''[Errno 5] Input/output error''"
    unfolding stream_file_def ev by auto
  show ?thesis
    using scan_error_not_infected [of "one_file ''/srv/in/a.txt'' ?f" "''/srv/in/a.txt''" ?f ?L, OF _ _ raised]
    by (simp add: one_file_def basename_def ascii_def)
qed

subsection \<open>Reasons and categories\<close>

text \<open>
  C3. Every result has a reason, and the reason of an infected result names exactly one of
  the six detection categories.
\<close>

theorem infected_names_one_category:
  "\<exists>rs. reason (is_infected L fs file_path) = Some rs \<and>
     (infected (is_infected L fs file_path) \<longrightarrow>
        (\<exists>c. names_category rs c \<and> (\<forall>c'. names_category rs c' \<longrightarrow> c' = c)))"
proof (cases "fs file_path")
  case None
  then show ?thesis by (simp add: is_infected_def is_infected_try_def)
next
  case (Some f)
  show ?thesis
  proof (cases "st_size f = 0")
    case True
    with Some show ?thesis by (simp add: is_infected_def is_infected_try_def)
  next
    case False
    define r1 where "r1 = streaming_result file_path f"
    have clean: "\<not> infected r1" by (simp add: r1_def)
    note eq = is_infected_Some [of fs file_path f L, OF Some False, folded r1_def]
    show ?thesis
    proof (cases "stream_file L r1 f")
      case (Returned r)
      from stream_file_Returned [OF Returned] show ?thesis
      proof
        assume "\<exists>desc. r = r1\<lparr>infected := True,
                  reason := Some (''Suspicious executable header: '' @ desc)\<rparr>"
        then obtain desc where "r = r1\<lparr>infected := True,
                  reason := Some (''Suspicious executable header: '' @ desc)\<rparr>" ..
        with eq Returned one_category_prefixed(1) [of desc] show ?thesis
          by (simp add: one_category_def)
      next
        assume "r = r1\<lparr>infected := True,
                  reason := Some ''Embedded JavaScript in PDF (potential exploit)''\<rparr>"
        with eq Returned one_category_fixed(1) show ?thesis
          by (simp add: one_category_def)
      qed
    next
      case (Raised msg)
      with eq clean show ?thesis by simp
    next
      case (Exhausted st)
      with eq post_stream_reason [OF clean, of L st] show ?thesis
        by (simp add: one_category_def)
    qed
  qed
qed

theorem infected_names_one_category_witness:
  "\<exists>rs. reason (is_infected (demo_libs hex16 hex16)
                   (one_file ''C:/tmp/setup.exe'' (readable [0x4D, 0x5A, 0x90, 0x00]))
                   ''C:/tmp/setup.exe'') = Some rs \<and>
        infected (is_infected (demo_libs hex16 hex16)
                   (one_file ''C:/tmp/setup.exe'' (readable [0x4D, 0x5A, 0x90, 0x00]))
                   ''C:/tmp/setup.exe'') \<and>
        (\<exists>c. names_category rs c \<and> (\<forall>c'. names_category rs c' \<longrightarrow> c' = c))"
proof -
  let ?R = "is_infected (demo_libs hex16 hex16)
              (one_file ''C:/tmp/setup.exe'' (readable [0x4D, 0x5A, 0x90, 0x00]))
              ''C:/tmp/setup.exe''"
  have "infected ?R"
    using mz_file_result
       [of "one_file ''C:/tmp/setup.exe'' (readable [0x4D, 0x5A, 0x90, 0x00])" "''C:/tmp/setup.exe''"
           "readable [0x4D, 0x5A, 0x90, 0x00]" "demo_libs hex16 hex16"]
    by (simp add: one_file_def readable_def)
  with infected_names_one_category
         [of "demo_libs hex16 hex16"
             "one_file ''C:/tmp/setup.exe'' (readable [0x4D, 0x5A, 0x90, 0x00])" "''C:/tmp/setup.exe''"]
  show ?thesis by blast
qed

subsection \<open>Signature short-circuit\<close>



subsection \<open>Post-stream priority\<close>

text \<open>
  C5. When the stream has been read to its end, the checks fire in the order MD5 blacklist,
  SHA-256 blacklist, entropy, suspicious content, shellcode. A file whose MD5 digest is in
  the MD5 blacklist is reported infected with the reason "Known malware (MD5): label",
  whatever its entropy and whatever flags the loop has set; the entropy is then not even
  computed. The SHA-256 blacklist comes next; only when neither matches is the entropy
  stored, and then the suspicious-content flag wins over the shellcode flag.
\<close>

theorem post_stream_priority:
  assumes f: "fs file_path = Some f" and ne: "st_size f \<noteq> 0"
    and ex: "stream_file L r f = Exhausted st"
  shows "(\<forall>label. KNOWN_BAD_MD5 (h_hexdigest (md5 L) (md5_hash st)) = Some label \<longrightarrow>
            infected (is_infected L fs file_path) \<and>
            reason (is_infected L fs file_path) = Some (''Known malware (MD5): '' @ label) \<and>
            entropy (is_infected L fs file_path) = Finite 0) \<and>
         (\<forall>label. KNOWN_BAD_MD5 (h_hexdigest (md5 L) (md5_hash st)) = None \<and>
                  KNOWN_BAD_SHA256 (h_hexdigest (sha256 L) (sha256_hash st)) = Some label \<longrightarrow>
            infected (is_infected L fs file_path) \<and>
            reason (is_infected L fs file_path) = Some (''Known malware (SHA256): '' @ label) \<and>
            entropy (is_infected L fs file_path) = Finite 0) \<and>
         (KNOWN_BAD_MD5 (h_hexdigest (md5 L) (md5_hash st)) = None \<and>
          KNOWN_BAD_SHA256 (h_hexdigest (sha256 L) (sha256_hash st)) = None \<longrightarrow>
            entropy (is_infected L fs file_path) = file_entropy_of (byte_counts st) \<and>
            (suspicious_content st \<longrightarrow>
               infected (is_infected L fs file_path) \<and>
               reason (is_infected L fs file_path) =
                 Some ''Suspicious content strings (potential ransomware or command injection)'') \<and>
            (\<not> suspicious_content st \<and> shellcode_detected st \<longrightarrow>
               infected (is_infected L fs file_path) \<and>
               reason (is_infected L fs file_path) =
                 Some ''Potential shellcode pattern (NOP sled detected)'') \<and>
            (\<not> suspicious_content st \<and> \<not> shellcode_detected st \<longrightarrow>
               \<not> infected (is_infected L fs file_path) \<and>
               reason (is_infected L fs file_path) = Some ''Scan completed: No threats detected''))"
proof -
  from ex have ex': "stream_file L (streaming_result file_path f) f = Exhausted st"
    by (rule stream_file_indep(1))
  have R: "is_infected L fs file_path = post_stream L (streaming_result file_path f) st"
    using is_infected_Some [of fs file_path f L, OF f ne] ex' by simp
  note len = exhausted_counts(1) [OF ex]
  show ?thesis
    unfolding R post_stream_below [OF len] Let_def
    by (simp split: option.split)
qed

theorem post_stream_priority_witness:
  "infected (is_infected (demo_libs (\<lambda>s. ''44d88612fea8a8f36de82e1278abb02f'') hex16)
      (one_file ''/srv/in/note.txt'' (readable (ascii ''pay the ransom'')))
      ''/srv/in/note.txt'') \<and>
   reason (is_infected (demo_libs (\<lambda>s. ''44d88612fea8a8f36de82e1278abb02f'') hex16)
      (one_file ''/srv/in/note.txt'' (readable (ascii ''pay the ransom'')))
      ''/srv/in/note.txt'') =
     Some ''Known malware (MD5): EICAR Test (Production Placeholder)''"
proof -
  let ?f = "readable (ascii ''pay the ransom'')"
  let ?L = "demo_libs (\<lambda>s. ''44d88612fea8a8f36de82e1278abb02f'') hex16"
  let ?r = "streaming_result ''/srv/in/note.txt'' ?f"
  have "\<exists>st. stream_file ?L ?r ?f = Exhausted st \<and>
           (suspicious_content st \<longleftrightarrow> has_suspicious_string (ascii ''pay the ransom'')) \<and>
           (shellcode_detected st \<longleftrightarrow> bytes_in NOP_SLED (ascii ''pay the ransom''))"
    by (rule small_plain_file_exhausts) (simp_all add: ascii_def CHUNK_SIZE_def)
  then obtain st where st: "stream_file ?L ?r ?f = Exhausted st" by blast
  have ne: "st_size ?f \<noteq> 0" by (simp add: ascii_def)
  have hit: "KNOWN_BAD_MD5 (h_hexdigest (md5 ?L) (md5_hash st)) =
               Some ''EICAR Test (Production Placeholder)''"
    by (simp add: demo_libs_def checksum_hasher_def KNOWN_BAD_MD5_def)
  from post_stream_priority [of "one_file ''/srv/in/note.txt'' ?f" "''/srv/in/note.txt''" ?f ?L ?r st,
          OF one_file_same ne st] hit
  show ?thesis by simp
qed

subsection \<open>Digests and chunk boundaries\<close>

text \<open>
  C6. For hash objects that keep the promise of \<open>hashlib\<close>, feeding any sequence of chunks
  and finalising gives the single-shot digest of the concatenation, for both digests. The
  loop of the scan does so: over any sequence of chunks it reads to the end, and it does
  read to the end every sequence whose first chunk starts with none of the signatures.
  The result of the scan carries these digests: when the stream of a file has been read to
  its end, and so for every readable file that starts with none of the signatures, both
  hashes are set, to the single-shot digests of the file content; in every result the two
  hashes are either both null or both these digests. Hence what the result holds depends on
  the content only, not on where the reads cut it.
\<close>

theorem chunking_preserves_digests:
  assumes md5_ok: "hashlib_contract (md5 L)" and sha256_ok: "hashlib_contract (sha256 L)"
  shows "(\<forall>cs. h_hexdigest (md5 L) (foldl (h_update (md5 L)) (h_new (md5 L)) cs)
                = one_shot (md5 L) (concat cs) \<and>
              h_hexdigest (sha256 L) (foldl (h_update (sha256 L)) (h_new (sha256 L)) cs)
                = one_shot (sha256 L) (concat cs)) \<and>
         (\<forall>cs r st. scan_loop L r (map Chunk cs) (initial_state L) = Exhausted st \<longrightarrow>
              h_hexdigest (md5 L) (md5_hash st) = one_shot (md5 L) (concat cs) \<and>
              h_hexdigest (sha256 L) (sha256_hash st) = one_shot (sha256 L) (concat cs)) \<and>
         (\<forall>c cs r. check_headers EXECUTABLE_HEADERS c False = Inr False \<longrightarrow>
              (\<exists>st. scan_loop L r (map Chunk (c # cs)) (initial_state L) = Exhausted st \<and>
                 h_hexdigest (md5 L) (md5_hash st) = one_shot (md5 L) (concat (c # cs)) \<and>
                 h_hexdigest (sha256 L) (sha256_hash st) = one_shot (sha256 L) (concat (c # cs)))) \<and>
         (\<forall>f r st. fs file_path = Some f \<longrightarrow> st_size f \<noteq> 0 \<longrightarrow>
              stream_file L r f = Exhausted st \<longrightarrow>
              hashes_md5 (is_infected L fs file_path) = Some (one_shot (md5 L) (data f)) \<and>
              hashes_sha256 (is_infected L fs file_path) = Some (one_shot (sha256 L) (data f))) \<and>
         (\<forall>f. fs file_path = Some f \<longrightarrow> st_size f \<noteq> 0 \<longrightarrow>
              open_error f = None \<longrightarrow> read_error f = None \<longrightarrow> data f \<noteq> [] \<longrightarrow>
              check_headers EXECUTABLE_HEADERS (take CHUNK_SIZE (data f)) False = Inr False \<longrightarrow>
              hashes_md5 (is_infected L fs file_path) = Some (one_shot (md5 L) (data f)) \<and>
              hashes_sha256 (is_infected L fs file_path) = Some (one_shot (sha256 L) (data f))) \<and>
         (\<forall>f. fs file_path = Some f \<longrightarrow>
              hashes_md5 (is_infected L fs file_path) = None \<and>
              hashes_sha256 (is_infected L fs file_path) = None \<or>
              hashes_md5 (is_infected L fs file_path) = Some (one_shot (md5 L) (data f)) \<and>
              hashes_sha256 (is_infected L fs file_path) = Some (one_shot (sha256 L) (data f)))"
proof (intro conjI allI impI)
  fix cs
  show "h_hexdigest (md5 L) (foldl (h_update (md5 L)) (h_new (md5 L)) cs) = one_shot (md5 L) (concat cs)"
    by (simp add: foldl_update_concat [OF md5_ok] one_shot_def)
  show "h_hexdigest (sha256 L) (foldl (h_update (sha256 L)) (h_new (sha256 L)) cs)
          = one_shot (sha256 L) (concat cs)"
    by (simp add: foldl_update_concat [OF sha256_ok] one_shot_def)
next
  fix cs r st
  assume loop: "scan_loop L r (map Chunk cs) (initial_state L) = Exhausted st"
  show "h_hexdigest (md5 L) (md5_hash st) = one_shot (md5 L) (concat cs)"
    and "h_hexdigest (sha256 L) (sha256_hash st) = one_shot (sha256 L) (concat cs)"
    by (rule scan_loop_digests [OF md5_ok sha256_ok loop])+
next
  fix c cs r
  assume plain: "check_headers EXECUTABLE_HEADERS c False = Inr False"
  from process_chunk_plain [OF plain, of L r] obtain st1
    where st1: "process_chunk L r c (initial_state L) = Next st1"
      "header_checked st1" "\<not> pdf_checked st1"
    by blast
  from scan_loop_checked [OF st1(2,3), of L r cs] obtain st
    where st: "scan_loop L r (map Chunk cs) st1 = Exhausted st" by blast
  with st1(1) have loop: "scan_loop L r (map Chunk (c # cs)) (initial_state L) = Exhausted st"
    by simp
  note scan_loop_digests [OF md5_ok sha256_ok loop]
  with loop show "\<exists>st. scan_loop L r (map Chunk (c # cs)) (initial_state L) = Exhausted st \<and>
                 h_hexdigest (md5 L) (md5_hash st) = one_shot (md5 L) (concat (c # cs)) \<and>
                 h_hexdigest (sha256 L) (sha256_hash st) = one_shot (sha256 L) (concat (c # cs))"
    by blast
next
  fix f r st
  assume f: "fs file_path = Some f" and sized: "st_size f \<noteq> 0"
    and ex: "stream_file L r f = Exhausted st"
  show "hashes_md5 (is_infected L fs file_path) = Some (one_shot (md5 L) (data f))"
    using exhausted_hashes(1) [of fs file_path f L r st, OF f sized ex]
    by (simp add: chunks_one_shot [OF md5_ok])
  show "hashes_sha256 (is_infected L fs file_path) = Some (one_shot (sha256 L) (data f))"
    using exhausted_hashes(2) [of fs file_path f L r st, OF f sized ex]
    by (simp add: chunks_one_shot [OF sha256_ok])
next
  fix f
  assume f: "fs file_path = Some f" and sized: "st_size f \<noteq> 0"
    and opened: "open_error f = None" and reads: "read_error f = None"
    and ne: "data f \<noteq> []"
    and plain: "check_headers EXECUTABLE_HEADERS (take CHUNK_SIZE (data f)) False = Inr False"
  from plain_file_exhausts [OF opened reads ne plain, of L "streaming_result file_path f"]
  obtain st where ex: "stream_file L (streaming_result file_path f) f = Exhausted st" by blast
  show "hashes_md5 (is_infected L fs file_path) = Some (one_shot (md5 L) (data f))"
    using exhausted_hashes(1) [of fs file_path f L _ st, OF f sized ex]
    by (simp add: chunks_one_shot [OF md5_ok])
  show "hashes_sha256 (is_infected L fs file_path) = Some (one_shot (sha256 L) (data f))"
    using exhausted_hashes(2) [of fs file_path f L _ st, OF f sized ex]
    by (simp add: chunks_one_shot [OF sha256_ok])
next
  fix f
  assume f: "fs file_path = Some f"
  from is_infected_hashes [of fs file_path f L, OF f]
  show "hashes_md5 (is_infected L fs file_path) = None \<and>
        hashes_sha256 (is_infected L fs file_path) = None \<or>
        hashes_md5 (is_infected L fs file_path) = Some (one_shot (md5 L) (data f)) \<and>
        hashes_sha256 (is_infected L fs file_path) = Some (one_shot (sha256 L) (data f))"
  proof
    assume "hashes_md5 (is_infected L fs file_path) = None \<and>
            hashes_sha256 (is_infected L fs file_path) = None"
    then show ?thesis by (rule disjI1)
  next
    assume "\<exists>st. stream_file L (streaming_result file_path f) f = Exhausted st \<and>
           hashes_md5 (is_infected L fs file_path) = Some (h_hexdigest (md5 L) (md5_hash st)) \<and>
           hashes_sha256 (is_infected L fs file_path) = Some (h_hexdigest (sha256 L) (sha256_hash st))"
    then obtain st where st: "stream_file L (streaming_result file_path f) f = Exhausted st"
        "hashes_md5 (is_infected L fs file_path) = Some (h_hexdigest (md5 L) (md5_hash st))"
        "hashes_sha256 (is_infected L fs file_path) = Some (h_hexdigest (sha256 L) (sha256_hash st))"
      by blast
    from stream_file_Exhausted(1,2) [OF st(1)] st(2,3)
    have "hashes_md5 (is_infected L fs file_path) = Some (one_shot (md5 L) (data f)) \<and>
        hashes_sha256 (is_infected L fs file_path) = Some (one_shot (sha256 L) (data f))"
      by (simp add: chunks_one_shot [OF md5_ok] chunks_one_shot [OF sha256_ok])
    then show ?thesis by (rule disjI2)
  qed
qed

theorem chunking_preserves_digests_witness:
  "hashlib_contract (md5 (demo_libs hex16 hex16)) \<and>
   hashlib_contract (sha256 (demo_libs hex16 hex16)) \<and>
   hashes_md5 (is_infected (demo_libs hex16 hex16)
      (one_file ''/srv/in/a.txt'' (readable (ascii ''hello''))) ''/srv/in/a.txt'') = Some ''7179'' \<and>
   hashes_sha256 (is_infected (demo_libs hex16 hex16)
      (one_file ''/srv/in/a.txt'' (readable (ascii ''hello''))) ''/srv/in/a.txt'') = Some ''7179'' \<and>
   (\<exists>st. scan_loop (demo_libs hex16 hex16)
           (streaming_result ''/srv/in/a.txt'' (readable (ascii ''hello'')))
           (map Chunk [ascii ''he'', ascii ''llo'']) (initial_state (demo_libs hex16 hex16))
         = Exhausted st \<and>
         h_hexdigest (md5 (demo_libs hex16 hex16)) (md5_hash st) = ''7179'') \<and>
   (\<exists>st. scan_loop (demo_libs hex16 hex16)
           (streaming_result ''/srv/in/a.txt'' (readable (ascii ''hello'')))
           (map Chunk [ascii ''hell'', ascii ''o'']) (initial_state (demo_libs hex16 hex16))
         = Exhausted st \<and>
         h_hexdigest (md5 (demo_libs hex16 hex16)) (md5_hash st) = ''7179'')"
proof -
  let ?L = "demo_libs hex16 hex16"
  let ?f = "readable (ascii ''hello'')"
  let ?fs = "one_file ''/srv/in/a.txt'' ?f"
  let ?r = "streaming_result ''/srv/in/a.txt'' ?f"
  have c: "hashlib_contract (md5 ?L)" "hashlib_contract (sha256 ?L)"
    by (simp_all add: demo_libs_def checksum_contract)
  note T = chunking_preserves_digests [OF c, of ?fs "''/srv/in/a.txt''"]
  have plain: "check_headers EXECUTABLE_HEADERS (take CHUNK_SIZE (data ?f)) False = Inr False"
    by (rule check_headers_plain) (simp_all add: ascii_def CHUNK_SIZE_def)
  from T have at_file: "\<forall>f. ?fs ''/srv/in/a.txt'' = Some f \<longrightarrow> st_size f \<noteq> 0 \<longrightarrow>
              open_error f = None \<longrightarrow> read_error f = None \<longrightarrow> data f \<noteq> [] \<longrightarrow>
              check_headers EXECUTABLE_HEADERS (take CHUNK_SIZE (data f)) False = Inr False \<longrightarrow>
              hashes_md5 (is_infected ?L ?fs ''/srv/in/a.txt'') = Some (one_shot (md5 ?L) (data f)) \<and>
              hashes_sha256 (is_infected ?L ?fs ''/srv/in/a.txt'') = Some (one_shot (sha256 ?L) (data f))"
    by blast
  from at_file [rule_format, of ?f, OF one_file_same _ _ _ _ plain]
  have hashes: "hashes_md5 (is_infected ?L ?fs ''/srv/in/a.txt'') = Some ''7179''"
       "hashes_sha256 (is_infected ?L ?fs ''/srv/in/a.txt'') = Some ''7179''"
    by (simp_all add: demo_one_shot_hello) (simp_all add: ascii_def)
  from T have loop: "\<forall>c cs r. check_headers EXECUTABLE_HEADERS c False = Inr False \<longrightarrow>
              (\<exists>st. scan_loop ?L r (map Chunk (c # cs)) (initial_state ?L) = Exhausted st \<and>
                 h_hexdigest (md5 ?L) (md5_hash st) = one_shot (md5 ?L) (concat (c # cs)) \<and>
                 h_hexdigest (sha256 ?L) (sha256_hash st) = one_shot (sha256 ?L) (concat (c # cs)))"
    by blast
  have p1: "check_headers EXECUTABLE_HEADERS (ascii ''he'') False = Inr False"
    by (rule check_headers_plain) (simp_all add: ascii_def)
  have p2: "check_headers EXECUTABLE_HEADERS (ascii ''hell'') False = Inr False"
    by (rule check_headers_plain) (simp_all add: ascii_def)
  have cat: "concat [ascii ''he'', ascii ''llo''] = ascii ''hello''"
    "concat [ascii ''hell'', ascii ''o''] = ascii ''hello''"
    by (simp_all add: ascii_def)
  from loop [rule_format, of "ascii ''he''" ?r "[ascii ''llo'']", OF p1]
  have l1: "\<exists>st. scan_loop ?L ?r (map Chunk [ascii ''he'', ascii ''llo'']) (initial_state ?L)
         = Exhausted st \<and> h_hexdigest (md5 ?L) (md5_hash st) = ''7179''"
    unfolding cat demo_one_shot_hello by blast
  from loop [rule_format, of "ascii ''hell''" ?r "[ascii ''o'']", OF p2]
  have l2: "\<exists>st. scan_loop ?L ?r (map Chunk [ascii ''hell'', ascii ''o'']) (initial_state ?L)
         = Exhausted st \<and> h_hexdigest (md5 ?L) (md5_hash st) = ''7179''"
    unfolding cat demo_one_shot_hello by blast
  from c hashes l1 l2 show ?thesis by (intro conjI)
qed

subsection \<open>Entropy\<close>

text \<open>
  C9. The division \<open>byte_counts / byte_counts.sum()\<close> can be 0/0. The validation looks at
  the size the file system reports, not at the bytes read: for a file whose size is 4096 and
  whose read gives nothing, the loop body never runs, the histogram is all zero, the
  quotient is NaN, and the scan returns "Scan completed: No threats detected" with the
  entropy NaN (unless the digest of the empty input is blacklisted). This is the only way:
  the entropy of a result is NaN exactly when the size is not zero, the file opens, the
  first read succeeds and gives no byte, and no digest is blacklisted.
\<close>

theorem entropy_zero_by_zero:
  "(fs file_path = Some pseudo_file \<and>
    KNOWN_BAD_MD5 (h_hexdigest (md5 L) (h_new (md5 L))) = None \<and>
    KNOWN_BAD_SHA256 (h_hexdigest (sha256 L) (h_new (sha256 L))) = None \<longrightarrow>
      probs (byte_counts (initial_state L)) = None \<and>
      stream_file L (streaming_result file_path pseudo_file) pseudo_file
        = Exhausted (initial_state L) \<and>
      is_infected L fs file_path =
        \<lparr>infected = False, reason = Some ''Scan completed: No threats detected'',
         filename = basename file_path, size = 4096,
         hashes_md5 = Some (h_hexdigest (md5 L) (h_new (md5 L))),
         hashes_sha256 = Some (h_hexdigest (sha256 L) (h_new (sha256 L))),
         entropy = NaN\<rparr>) \<and>
   (entropy (is_infected L fs file_path) = NaN \<longleftrightarrow>
      (\<exists>f. fs file_path = Some f \<and> st_size f \<noteq> 0 \<and> data f = [] \<and> open_error f = None \<and>
           (\<forall>msg. read_error f \<noteq> Some (0, msg)) \<and>
           KNOWN_BAD_MD5 (h_hexdigest (md5 L) (h_new (md5 L))) = None \<and>
           KNOWN_BAD_SHA256 (h_hexdigest (sha256 L) (h_new (sha256 L))) = None))"
proof (intro conjI impI)
  assume a: "fs file_path = Some pseudo_file \<and>
    KNOWN_BAD_MD5 (h_hexdigest (md5 L) (h_new (md5 L))) = None \<and>
    KNOWN_BAD_SHA256 (h_hexdigest (sha256 L) (h_new (sha256 L))) = None"
  show "probs (byte_counts (initial_state L)) = None"
    by (simp add: initial_histogram)
  show "stream_file L (streaming_result file_path pseudo_file) pseudo_file
        = Exhausted (initial_state L)"
    by (rule nothing_read) (simp_all add: pseudo_file_def)
  show "is_infected L fs file_path =
        \<lparr>infected = False, reason = Some ''Scan completed: No threats detected'',
         filename = basename file_path, size = 4096,
         hashes_md5 = Some (h_hexdigest (md5 L) (h_new (md5 L))),
         hashes_sha256 = Some (h_hexdigest (sha256 L) (h_new (sha256 L))),
         entropy = NaN\<rparr>"
    using nothing_read_result [of fs file_path pseudo_file L] a
    by (simp add: pseudo_file_def)
next
  show "entropy (is_infected L fs file_path) = NaN \<longleftrightarrow>
      (\<exists>f. fs file_path = Some f \<and> st_size f \<noteq> 0 \<and> data f = [] \<and> open_error f = None \<and>
           (\<forall>msg. read_error f \<noteq> Some (0, msg)) \<and>
           KNOWN_BAD_MD5 (h_hexdigest (md5 L) (h_new (md5 L))) = None \<and>
           KNOWN_BAD_SHA256 (h_hexdigest (sha256 L) (h_new (sha256 L))) = None)"
  proof
    assume "entropy (is_infected L fs file_path) = NaN"
    then show "\<exists>f. fs file_path = Some f \<and> st_size f \<noteq> 0 \<and> data f = [] \<and> open_error f = None \<and>
           (\<forall>msg. read_error f \<noteq> Some (0, msg)) \<and>
           KNOWN_BAD_MD5 (h_hexdigest (md5 L) (h_new (md5 L))) = None \<and>
           KNOWN_BAD_SHA256 (h_hexdigest (sha256 L) (h_new (sha256 L))) = None"
      by (rule entropy_NaN_only_if)
  next
    assume "\<exists>f. fs file_path = Some f \<and> st_size f \<noteq> 0 \<and> data f = [] \<and> open_error f = None \<and>
           (\<forall>msg. read_error f \<noteq> Some (0, msg)) \<and>
           KNOWN_BAD_MD5 (h_hexdigest (md5 L) (h_new (md5 L))) = None \<and>
           KNOWN_BAD_SHA256 (h_hexdigest (sha256 L) (h_new (sha256 L))) = None"
    then obtain f where f: "fs file_path = Some f" "st_size f \<noteq> 0" "data f = []"
        "open_error f = None" "\<forall>msg. read_error f \<noteq> Some (0, msg)"
        "KNOWN_BAD_MD5 (h_hexdigest (md5 L) (h_new (md5 L))) = None"
        "KNOWN_BAD_SHA256 (h_hexdigest (sha256 L) (h_new (sha256 L))) = None"
      by blast
    from nothing_read_result [of fs file_path f L, OF f]
    show "entropy (is_infected L fs file_path) = NaN" by simp
  qed
qed

theorem entropy_zero_by_zero_witness:
  "is_infected (demo_libs hex16 hex16) (one_file ''/sys/devices/software/uevent'' pseudo_file)
       ''/sys/devices/software/uevent'' =
     \<lparr>infected = False, reason = Some ''Scan completed: No threats detected'',
      filename = ''uevent'', size = 4096,
      hashes_md5 = Some ''0000'', hashes_sha256 = Some ''0000'', entropy = NaN\<rparr>"
  using entropy_zero_by_zero
          [of "one_file ''/sys/devices/software/uevent'' pseudo_file"
              "''/sys/devices/software/uevent''" "demo_libs hex16 hex16"]
  by (simp add: demo_hexdigest hex16_unlisted basename_def)
     (simp add: demo_libs_def checksum_hasher_def hex16_def)

text \<open>
  C10. The high-entropy branch is dead. The entropy of a result is NaN or a number between
  0 and ln 256 (the logarithm is the natural one), ln 256 is below the threshold 7.9, the
  comparison with the threshold is false for the entropy of every result, and the reason of
  a result is never the high-entropy one.
\<close>

theorem high_entropy_unreachable:
  "(entropy (is_infected L fs file_path) = NaN \<or>
    (\<exists>e. entropy (is_infected L fs file_path) = Finite e \<and> 0 \<le> e \<and> e \<le> ln 256)) \<and>
   ln 256 < ENTROPY_THRESHOLD \<and>
   \<not> float_gt (entropy (is_infected L fs file_path)) ENTROPY_THRESHOLD \<and>
   (\<exists>rs. reason (is_infected L fs file_path) = Some rs \<and> \<not> names_category rs HighEntropy)"
proof -
  have thr: "ln 256 < ENTROPY_THRESHOLD"
    using ln_256_bound by (simp add: ENTROPY_THRESHOLD_def)
  have ln_pos: "(0::real) \<le> ln 256" by simp
  have main: "(entropy (is_infected L fs file_path) = NaN \<or>
      (\<exists>e. entropy (is_infected L fs file_path) = Finite e \<and> 0 \<le> e \<and> e \<le> ln 256)) \<and>
      (\<exists>rs. reason (is_infected L fs file_path) = Some rs \<and> \<not> names_category rs HighEntropy)"
  proof (cases "fs file_path")
    case None
    then show ?thesis using ln_pos by (simp add: is_infected_def is_infected_try_def)
  next
    case (Some f)
    show ?thesis
    proof (cases "st_size f = 0")
      case True
      with Some show ?thesis using ln_pos by (simp add: is_infected_def is_infected_try_def)
    next
      case False
      note eq = is_infected_Some [of fs file_path f L, OF Some False]
      show ?thesis
      proof (cases "stream_file L (streaming_result file_path f) f")
        case (Returned r)
        with eq stream_file_Returned_fields(1,5) [OF Returned] ln_pos show ?thesis by auto
      next
        case (Raised msg)
        with eq ln_pos show ?thesis by simp
      next
        case (Exhausted st)
        note cnt = exhausted_counts [OF Exhausted]
        from file_entropy_of_bounds [OF cnt(1)]
        have fe: "file_entropy_of (byte_counts st) = NaN \<or>
           (\<exists>e. file_entropy_of (byte_counts st) = Finite e \<and> 0 \<le> e \<and> e \<le> ln 256)"
          by auto
        from post_stream_below_facts [OF cnt(1), of L "streaming_result file_path f"] fe ln_pos
        have "(entropy (post_stream L (streaming_result file_path f) st) = NaN \<or>
           (\<exists>e. entropy (post_stream L (streaming_result file_path f) st) = Finite e \<and>
             0 \<le> e \<and> e \<le> ln 256)) \<and>
           (\<exists>rs. reason (post_stream L (streaming_result file_path f) st) = Some rs \<and>
             \<not> names_category rs HighEntropy)"
          by auto
        with eq Exhausted show ?thesis by simp
      qed
    qed
  qed
  from main thr have "\<not> float_gt (entropy (is_infected L fs file_path)) ENTROPY_THRESHOLD"
    by (auto simp: float_gt_def)
  with main thr show ?thesis by blast
qed

text \<open>
  C1. The entropy field is not the Shannon entropy in bits: \<open>scipy.stats.entropy\<close> is called
  without a base and works with the natural logarithm. The file of the two bytes 00 01
  has 1 bit of entropy; the scan stores ln 2 (or leaves 0.0 when a digest is blacklisted).
  A histogram with all 256 byte values in equal proportion has 8 bits; the scan computes
  ln 256, which is below 8 and below the threshold 7.9.
\<close>

theorem entropy_in_nats_not_bits:
  "entropy (is_infected L (one_file p (readable [0x00, 0x01])) p) =
     (if KNOWN_BAD_MD5 (one_shot (md5 L) [0x00, 0x01]) = None \<and>
         KNOWN_BAD_SHA256 (one_shot (sha256 L) [0x00, 0x01]) = None
      then Finite (ln 2) else Finite 0) \<and>
   shannon_bits (count_bytes [0x00, 0x01] (replicate 256 0)) = 1 \<and>
   entropy (is_infected L (one_file p (readable [0x00, 0x01])) p) \<noteq>
     Finite (shannon_bits (count_bytes [0x00, 0x01] (replicate 256 0))) \<and>
   file_entropy_of (replicate 256 (Suc n)) = Finite (ln 256) \<and>
   shannon_bits (replicate 256 (Suc n)) = 8 \<and>
   ln 256 < (8 :: real)"
proof -
  let ?bs = "[0x00, 0x01] :: bytes"
  let ?f = "readable ?bs"
  let ?fs = "one_file p ?f"
  let ?r = "streaming_result p ?f"
  have "\<exists>st. stream_file L ?r ?f = Exhausted st \<and>
           (suspicious_content st \<longleftrightarrow> has_suspicious_string ?bs) \<and>
           (shellcode_detected st \<longleftrightarrow> bytes_in NOP_SLED ?bs)"
    by (rule small_plain_file_exhausts) (simp_all add: CHUNK_SIZE_def)
  then obtain st where st: "stream_file L ?r ?f = Exhausted st" by blast
  have ne: "st_size ?f \<noteq> 0" by simp
  have R: "is_infected L ?fs p = post_stream L ?r st"
    using one_file_same ne st by (rule exhausted_result)
  have cs: "chunks CHUNK_SIZE ?bs = [?bs]"
    by (rule chunks_small) (simp_all add: CHUNK_SIZE_def)
  note ex = stream_file_Exhausted [OF st, unfolded readable_simps cs]
  have md5: "h_hexdigest (md5 L) (md5_hash st) = one_shot (md5 L) ?bs"
    and sha: "h_hexdigest (sha256 L) (sha256_hash st) = one_shot (sha256 L) ?bs"
    using ex(1,2) by (simp_all add: one_shot_def)
  have counts: "byte_counts st = 1 # 1 # replicate 254 0"
    using ex(3) two_byte_histogram by simp
  have ent: "entropy (is_infected L ?fs p) =
     (if KNOWN_BAD_MD5 (one_shot (md5 L) ?bs) = None \<and>
         KNOWN_BAD_SHA256 (one_shot (sha256 L) ?bs) = None
      then Finite (ln 2) else Finite 0)"
    unfolding R post_stream_below [OF exhausted_counts(1) [OF st]] Let_def md5 sha counts
      two_byte_entropy
    by (simp split: option.split)
  have bits: "shannon_bits (count_bytes ?bs (replicate 256 0)) = 1"
    unfolding two_byte_histogram by (rule two_byte_bits)
  have "ln (2::real) < 1" using ln_2_bound by simp
  with ent bits have ne_bits: "entropy (is_infected L ?fs p) \<noteq>
     Finite (shannon_bits (count_bytes ?bs (replicate 256 0)))"
    by (simp split: if_splits)
  have "ln (256::real) < 8" using ln_256_bound by simp
  with ent bits ne_bits uniform_entropy [of n] uniform_bits [of n] show ?thesis
    by (intro conjI)
qed

subsection \<open>Patterns across a chunk boundary\<close>

text \<open>
  C8. The shellcode detector looks at one chunk at a time. The file of 8182 zero bytes
  followed by 20 bytes 0x90 contains the NOP sled, but the first read of 8192 bytes ends
  after its tenth byte: neither chunk contains the sled, and, unless a digest of the file is
  blacklisted, the scan reports "Scan completed: No threats detected".
\<close>

theorem straddling_sled_missed:
  assumes f: "fs file_path = Some (readable (replicate 8182 0x00 @ replicate 20 0x90))"
    and md5_unlisted:
      "KNOWN_BAD_MD5 (h_hexdigest (md5 L) (foldl (h_update (md5 L)) (h_new (md5 L))
          (chunks CHUNK_SIZE (replicate 8182 0x00 @ replicate 20 0x90)))) = None"
    and sha256_unlisted:
      "KNOWN_BAD_SHA256 (h_hexdigest (sha256 L) (foldl (h_update (sha256 L)) (h_new (sha256 L))
          (chunks CHUNK_SIZE (replicate 8182 0x00 @ replicate 20 0x90)))) = None"
  shows "bytes_in NOP_SLED (replicate 8182 0x00 @ replicate 20 0x90) \<and>
         chunks CHUNK_SIZE (replicate 8182 0x00 @ replicate 20 0x90) =
           [replicate 8182 0x00 @ replicate 10 0x90, replicate 10 0x90] \<and>
         \<not> infected (is_infected L fs file_path) \<and>
         reason (is_infected L fs file_path) = Some ''Scan completed: No threats detected''"
proof -
  let ?bs = "replicate 8182 (0x00 :: byte) @ replicate 20 0x90"
  let ?f = "readable ?bs"
  let ?r = "streaming_result file_path ?f"
  have ne: "data ?f \<noteq> []" by simp
  have sized: "st_size ?f \<noteq> 0" by simp
  have first: "take CHUNK_SIZE (data ?f) = replicate 8182 0x00 @ replicate 10 0x90"
    by (simp add: CHUNK_SIZE_def)
  have plain: "check_headers EXECUTABLE_HEADERS (take CHUNK_SIZE (data ?f)) False = Inr False"
    unfolding first by (rule check_headers_plain) simp_all
  from plain_file_exhausts [OF _ _ ne plain, of L ?r] obtain st
    where st: "stream_file L ?r ?f = Exhausted st"
      "suspicious_content st \<longleftrightarrow>
         (\<exists>c \<in> set (chunks CHUNK_SIZE (data ?f)). has_suspicious_string c)"
      "shellcode_detected st \<longleftrightarrow>
         (\<exists>c \<in> set (chunks CHUNK_SIZE (data ?f)). bytes_in NOP_SLED c)"
    by auto
  have no_susp: "\<not> suspicious_content st"
    unfolding st(2) readable_simps sled_chunks
    by (auto intro!: no_suspicious_string simp: lower_replicate lower_append lower_byte_fixed
          dest!: no_suspicious_string [THEN notE, rotated])
  have no_shell: "\<not> shellcode_detected st"
    unfolding st(3) readable_simps sled_chunks
    using half_sled_not_found by simp
  have R: "is_infected L fs file_path = post_stream L ?r st"
    using f sized st(1) by (rule exhausted_result)
  note hashes = stream_file_Exhausted(1,2) [OF st(1), unfolded readable_simps]
  have found: "bytes_in NOP_SLED ?bs"
    unfolding bytes_in_def NOP_SLED_def by (rule sublist_append_leftI)
  have res: "\<not> infected (is_infected L fs file_path) \<and>
         reason (is_infected L fs file_path) = Some ''Scan completed: No threats detected''"
    unfolding R post_stream_below [OF exhausted_counts(1) [OF st(1)]] Let_def hashes
    using md5_unlisted sha256_unlisted no_susp no_shell by simp
  with found sled_chunks show ?thesis by blast
qed

theorem straddling_sled_missed_witness:
  "bytes_in NOP_SLED (replicate 8182 0x00 @ replicate 20 0x90) \<and>
   \<not> infected (is_infected (demo_libs hex16 hex16)
        (one_file ''/srv/in/sled.bin'' (readable (replicate 8182 0x00 @ replicate 20 0x90)))
        ''/srv/in/sled.bin'') \<and>
   reason (is_infected (demo_libs hex16 hex16)
        (one_file ''/srv/in/sled.bin'' (readable (replicate 8182 0x00 @ replicate 20 0x90)))
        ''/srv/in/sled.bin'') = Some ''Scan completed: No threats detected''"
  using straddling_sled_missed
          [of "one_file ''/srv/in/sled.bin'' (readable (replicate 8182 0x00 @ replicate 20 0x90))"
              "''/srv/in/sled.bin''" "demo_libs hex16 hex16",
           OF one_file_same]
  by (simp only: demo_hexdigest hex16_unlisted simp_thms)

end
